theory Spec2Isabelle
  imports Complex_Main "HOL-Library.AList" "HOL-Library.Multiset"
begin

section \<open>Cells, rows and frames\<close>

text \<open>
  The store of \<^verbatim>\<open>transactions_db.py\<close> keeps one pandas frame in memory and one parquet
  file per (year, month) on disk. A frame is modelled by its column names, the names of
  its columns of dtype datetime64, and its rows; a row is an association list from column
  names to cells, and a column of the frame that a row does not list reads as NaN (what
  \<^verbatim>\<open>pd.concat\<close> fills in for a frame that lacks the column). A column of dtype datetime64
  holds timestamps and NaT. Exceptions are values of the type \<open>error\<close>; \<open>OSError\<close> stands
  for the failure of a write below a folder that does not exist.
\<close>

datatype error =
  NotImplementedError | KeyError | IndexError | AttributeError | ValueError | TypeError
  | OSError

datatype val =
  VNone | VNaN | VNaT | VBool bool | VInt int | VFloat rat | VStr string
  | VDate int int int

type_synonym row = "(string \<times> val) list"

record dataframe =
  columns :: "string list"
  datetimes :: "string list"
  rows :: "row list"

text \<open>A series: whether its dtype is datetime64, and its cells.\<close>

type_synonym series = "bool \<times> val list"

text \<open>The column names of \<^verbatim>\<open>TransactionsDBSchema\<close> (the defaults of its fields).\<close>

abbreviation ID :: string where "ID \<equiv> ''id''"
abbreviation DATE :: string where "DATE \<equiv> ''date''"
abbreviation PAYEE :: string where "PAYEE \<equiv> ''payee''"
abbreviation CAT :: string where "CAT \<equiv> ''cat''"
abbreviation MEMO :: string where "MEMO \<equiv> ''memo''"
abbreviation ACCOUNT :: string where "ACCOUNT \<equiv> ''account''"
abbreviation INFLOW :: string where "INFLOW \<equiv> ''inflow''"
abbreviation OUTFLOW :: string where "OUTFLOW \<equiv> ''outflow''"
abbreviation RECONCILED :: string where "RECONCILED \<equiv> ''reconciled''"
abbreviation AMOUNT :: string where "AMOUNT \<equiv> ''amount''"

definition get_mandatory_cols :: "string list" where
  "get_mandatory_cols = [DATE, PAYEE, AMOUNT]"

definition get_non_mandatory_cols :: "(string \<times> val) list" where
  "get_non_mandatory_cols =
     [(CAT, VStr ''''), (MEMO, VStr ''''), (ACCOUNT, VNone),
      (INFLOW, VInt 0), (OUTFLOW, VInt 0), (RECONCILED, VBool False)]"

text \<open>
  \<^verbatim>\<open>fields(cls)\<close> yields the dataclass fields: their names are the attribute names (upper
  case), their defaults the column names.
\<close>

definition get_db_col_names :: "string list" where
  "get_db_col_names =
     [''ID'', ''DATE'', ''PAYEE'', ''CAT'', ''MEMO'', ''ACCOUNT'', ''INFLOW'', ''OUTFLOW'',
      ''RECONCILED'', ''AMOUNT'']"

definition get_db_col_vals :: "string list" where
  "get_db_col_vals =
     [ID, DATE, PAYEE, CAT, MEMO, ACCOUNT, INFLOW, OUTFLOW, RECONCILED, AMOUNT]"

definition get_db_col_dict :: "(string \<times> string) list" where
  "get_db_col_dict = zip get_db_col_names get_db_col_vals"

definition get_numeric_cols :: "string list" where
  "get_numeric_cols = [INFLOW, OUTFLOW, AMOUNT]"

subsection \<open>The frame operations the store uses\<close>

definition bind_err :: "error + 'a \<Rightarrow> ('a \<Rightarrow> error + 'b) \<Rightarrow> error + 'b" where
  "bind_err m f = (case m of Inl e \<Rightarrow> Inl e | Inr x \<Rightarrow> f x)"

fun traverse :: "('a \<Rightarrow> error + 'b) \<Rightarrow> 'a list \<Rightarrow> error + 'b list" where
  "traverse f [] = Inr []"
| "traverse f (x # xs) =
     (case f x of
        Inl e \<Rightarrow> Inl e
      | Inr y \<Rightarrow> (case traverse f xs of Inl e \<Rightarrow> Inl e | Inr ys \<Rightarrow> Inr (y # ys)))"

definition cell :: "row \<Rightarrow> string \<Rightarrow> val" where
  "cell r c = (case map_of r c of Some v \<Rightarrow> v | None \<Rightarrow> VNaN)"

text \<open>\<^verbatim>\<open>pd.DataFrame()\<close>: no columns, no rows.\<close>

definition empty_frame :: dataframe where
  "empty_frame = \<lparr>columns = [], datetimes = [], rows = []\<rparr>"

text \<open>\<^verbatim>\<open>df[c]\<close>: the column as a series, KeyError when the frame has no such column.\<close>

definition getitem :: "dataframe \<Rightarrow> string \<Rightarrow> error + series" where
  "getitem df c =
     (if c \<in> set (columns df)
      then Inr (c \<in> set (datetimes df), map (\<lambda>r. cell r c) (rows df))
      else Inl KeyError)"

text \<open>
  \<^verbatim>\<open>df[c] = s\<close>: replaces the column, or appends it after the existing ones; the column
  takes the dtype of the series.
\<close>

definition set_dtype :: "bool \<Rightarrow> string \<Rightarrow> string list \<Rightarrow> string list" where
  "set_dtype datetime64 c cs = (if datetime64 then List.insert c cs else removeAll c cs)"

definition setitem :: "string \<Rightarrow> series \<Rightarrow> dataframe \<Rightarrow> dataframe" where
  "setitem c s df =
     \<lparr>columns = (if c \<in> set (columns df) then columns df else columns df @ [c]),
      datetimes = set_dtype (fst s) c (datetimes df),
      rows = map (\<lambda>(r, v). AList.update c v r) (zip (rows df) (snd s))\<rparr>"

text \<open>\<^verbatim>\<open>df[mask]\<close> for a boolean series \<open>mask\<close> aligned with the rows; the dtypes are kept.\<close>

definition loc :: "dataframe \<Rightarrow> bool list \<Rightarrow> dataframe" where
  "loc df bs = df\<lparr>rows := map fst (filter snd (zip (rows df) bs))\<rparr>"

text \<open>\<^verbatim>\<open>series.iloc[0]\<close> on the cells of a series: IndexError on an empty series.\<close>

definition iloc0 :: "'a list \<Rightarrow> error + 'a" where
  "iloc0 xs = (case xs of [] \<Rightarrow> Inl IndexError | x # _ \<Rightarrow> Inr x)"

text \<open>
  \<^verbatim>\<open>pd.concat(frames)\<close>: the union of the columns in order of first appearance, the rows
  one frame after the other; ValueError on an empty list of frames. A column of the result
  has dtype datetime64 when every frame that has the column has it with that dtype (the
  cells of the frames without the column are filled with NaT). Versions of pandas before
  3.0 also leave out of this rule a frame that holds no value in the column; the two rules
  differ only when a frame has a date column of dtype object without any date in it.
\<close>

definition union_columns :: "string list list \<Rightarrow> string list" where
  "union_columns css =
     fold (\<lambda>c acc. if c \<in> set acc then acc else acc @ [c]) (concat css) []"

definition concat_datetimes :: "dataframe list \<Rightarrow> string list" where
  "concat_datetimes fs =
     filter (\<lambda>c. list_all (\<lambda>f. c \<in> set (datetimes f) \<or> c \<notin> set (columns f)) fs)
       (union_columns (map columns fs))"

definition pd_concat :: "dataframe list \<Rightarrow> error + dataframe" where
  "pd_concat fs =
     (if fs = [] then Inl ValueError
      else Inr \<lparr>columns = union_columns (map columns fs),
                datetimes = concat_datetimes fs,
                rows = concat (map rows fs)\<rparr>)"

text \<open>
  The cell-level library functions of pandas are parameters of the model: parsing a date
  (the result is a timestamp, or \<open>None\<close> for NaT), the three casts of \<^verbatim>\<open>astype\<close>, and the
  element-wise \<^verbatim>\<open>==\<close> of a series with a scalar.
\<close>

record pandas =
  to_datetime :: "val \<Rightarrow> error + (int \<times> int \<times> int) option"
  astype_bool :: "val \<Rightarrow> error + val"
  astype_float :: "val \<Rightarrow> error + val"
  astype_category :: "val \<Rightarrow> error + val"
  series_eq :: "val \<Rightarrow> val \<Rightarrow> bool"

definition to_datetime_cell :: "pandas \<Rightarrow> val \<Rightarrow> error + val" where
  "to_datetime_cell pd v =
     bind_err (to_datetime pd v)
       (\<lambda>t. Inr (case t of None \<Rightarrow> VNaT | Some (y, m, d) \<Rightarrow> VDate y m d))"

text \<open>
  A cast of a series that works cell by cell: \<^verbatim>\<open>pd.to_datetime(s)\<close> is
  \<open>cast_series True (to_datetime_cell pd) s\<close>, and \<^verbatim>\<open>s.astype(bool)\<close> is
  \<open>cast_series False (astype_bool pd) s\<close>.
\<close>

definition cast_series :: "bool \<Rightarrow> (val \<Rightarrow> error + val) \<Rightarrow> series \<Rightarrow> error + series" where
  "cast_series datetime64 f s = bind_err (traverse f (snd s)) (\<lambda>ws. Inr (datetime64, ws))"

text \<open>
  Datetimes: the accessor \<^verbatim>\<open>.dt\<close> needs a series of dtype datetime64 (AttributeError
  otherwise). The fields of NaT are NaN, written \<open>None\<close>.
\<close>

fun is_datetime :: "val \<Rightarrow> bool" where
  "is_datetime (VDate y m d) = True"
| "is_datetime VNaT = True"
| "is_datetime _ = False"

fun year_of :: "val \<Rightarrow> int option" where
  "year_of (VDate y m d) = Some y"
| "year_of _ = None"

fun month_of :: "val \<Rightarrow> int option" where
  "month_of (VDate y m d) = Some m"
| "month_of _ = None"

definition dt :: "series \<Rightarrow> error + val list" where
  "dt s = (if fst s then Inr (snd s) else Inl AttributeError)"

text \<open>\<^verbatim>\<open>int(x)\<close> for a year or month: ValueError on NaN.\<close>

definition py_int :: "int option \<Rightarrow> error + int" where
  "py_int x = (case x of None \<Rightarrow> Inl ValueError | Some i \<Rightarrow> Inr i)"

text \<open>\<^verbatim>\<open>(date.year, date.month)\<close> for one cell: AttributeError unless it is a timestamp or NaT.\<close>

definition year_month :: "val \<Rightarrow> error + (int option \<times> int option)" where
  "year_month v = (if is_datetime v then Inr (year_of v, month_of v) else Inl AttributeError)"

fun str_list :: "val list \<Rightarrow> string list" where
  "str_list [] = []"
| "str_list (VStr s # vs) = s # str_list vs"
| "str_list (_ # vs) = str_list vs"

section \<open>The partitioned store\<close>

text \<open>
  The state of a \<^verbatim>\<open>TransactionsDBParquet\<close>: the frame \<^verbatim>\<open>_db\<close>, the files under the root
  folder, each named by its year folder and month file and listed in the order the root
  is read, and a list of year folders under the root. A year folder exists when it is
  listed or holds a file. The code never creates a year folder: \<^verbatim>\<open>to_parquet\<close> replaces
  or adds a file in a folder that exists and fails with \<open>OSError\<close> otherwise.
\<close>

type_synonym files = "((int \<times> int) \<times> dataframe) list"

record store =
  db :: dataframe
  disk :: files
  folders :: "int list"

definition has_folder :: "store \<Rightarrow> int \<Rightarrow> bool" where
  "has_folder st year = (year \<in> set (folders st) \<or> year \<in> set (map (fst \<circ> fst) (disk st)))"

definition to_parquet :: "dataframe \<Rightarrow> int \<times> int \<Rightarrow> store \<Rightarrow> error option \<times> store" where
  "to_parquet df path st =
     (if has_folder st (fst path) then (None, st\<lparr>disk := AList.update path df (disk st)\<rparr>)
      else (Some OSError, st))"

definition connect :: "files \<Rightarrow> error + dataframe" where
  "connect fs = (if length fs = 0 then Inr empty_frame else pd_concat (map snd fs))"

definition init :: "files \<Rightarrow> int list \<Rightarrow> error + store" where
  "init fs ys = bind_err (connect fs) (\<lambda>d. Inr \<lparr>db = d, disk = fs, folders = ys\<rparr>)"

definition disconnect :: "store \<Rightarrow> error option \<times> store" where
  "disconnect st = (Some NotImplementedError, st)"

fun save_db :: "(int option \<times> int option) list \<Rightarrow> store \<Rightarrow> error option \<times> store" where
  "save_db [] st = (None, st)"
| "save_db ((year, month) # months_to_save) st =
     (case bind_err (getitem (db st) DATE) dt of Inl e \<Rightarrow> (Some e, st) | Inr d1 \<Rightarrow>
     (case py_int year of Inl e \<Rightarrow> (Some e, st) | Inr y \<Rightarrow>
     (case bind_err (getitem (db st) DATE) dt of Inl e \<Rightarrow> (Some e, st) | Inr d2 \<Rightarrow>
     (case py_int month of Inl e \<Rightarrow> (Some e, st) | Inr m \<Rightarrow>
        let cond1 = map (\<lambda>v. year_of v = Some y) d1;
            cond2 = map (\<lambda>v. month_of v = Some m) d2
        in (case to_parquet (loc (db st) (map2 (\<and>) cond1 cond2)) (y, m) st of
              (Some e, st') \<Rightarrow> (Some e, st')
            | (None, st') \<Rightarrow> save_db months_to_save st')))))"

text \<open>
  \<^verbatim>\<open>_get_months_from_uuid\<close>: the loop adds one pair per id to a Python set; the list made
  of the set holds each pair once (in an order Python does not fix).
\<close>

definition lookup_date :: "dataframe \<Rightarrow> string \<Rightarrow> error + val" where
  "lookup_date df uuid =
     bind_err (getitem df ID) (\<lambda>ids.
     bind_err (getitem (loc df (map (\<lambda>v. v = VStr uuid) (snd ids))) DATE) (\<lambda>s. iloc0 (snd s)))"

fun months_loop :: "dataframe \<Rightarrow> string list \<Rightarrow> error + (int option \<times> int option) list" where
  "months_loop df [] = Inr []"
| "months_loop df (uuid # uuid_lst) =
     (case bind_err (lookup_date df uuid) year_month of
        Inl e \<Rightarrow> Inl e
      | Inr ym \<Rightarrow> (case months_loop df uuid_lst of Inl e \<Rightarrow> Inl e | Inr ms \<Rightarrow> Inr (ym # ms)))"

definition get_months_from_uuid ::
    "string list \<Rightarrow> store \<Rightarrow> error + (int option \<times> int option) list" where
  "get_months_from_uuid uuid_lst st =
     bind_err (months_loop (db st) uuid_lst) (\<lambda>ms. Inr (remdups ms))"

definition save_db_from_uuid :: "string list \<Rightarrow> store \<Rightarrow> error option \<times> store" where
  "save_db_from_uuid uuid_list st =
     (case get_months_from_uuid uuid_list st of
        Inl e \<Rightarrow> (Some e, st)
      | Inr months \<Rightarrow> save_db months st)"

subsection \<open>Frame objects\<close>

text \<open>
  A frame the caller holds is either the very object \<^verbatim>\<open>self._db\<close> refers to, or a frame
  of its own. \<^verbatim>\<open>_add_uuids\<close> and \<^verbatim>\<open>_apply_dtypes\<close> assign columns in place, so on the first
  kind of object they change the table of the store. \<open>assign\<close> is the in-place update of
  an object; it returns the store and the object after the update.
\<close>

datatype frame_obj = SelfDb | Frame dataframe

definition deref :: "store \<Rightarrow> frame_obj \<Rightarrow> dataframe" where
  "deref st df = (case df of SelfDb \<Rightarrow> db st | Frame f \<Rightarrow> f)"

definition assign :: "frame_obj \<Rightarrow> dataframe \<Rightarrow> store \<Rightarrow> store \<times> frame_obj" where
  "assign df v st = (case df of SelfDb \<Rightarrow> (st\<lparr>db := v\<rparr>, SelfDb) | Frame f \<Rightarrow> (st, Frame v))"

text \<open>\<^verbatim>\<open>self._db[mask]\<close> is a new frame.\<close>

definition get_data_by_id :: "string list \<Rightarrow> store \<Rightarrow> error + frame_obj" where
  "get_data_by_id uuid_list st =
     bind_err (getitem (db st) ID) (\<lambda>ids.
       Inr (Frame (loc (db st) (map (\<lambda>v. v \<in> VStr ` set uuid_list) (snd ids)))))"

text \<open>
  \<^verbatim>\<open>get_data_by_col_val\<close>: \<^verbatim>\<open>db_tmp\<close> starts as the object \<^verbatim>\<open>self._db\<close> and is rebound to a
  new frame by each filter; with an empty mapping the table object itself is returned.
\<close>

fun filter_loop :: "pandas \<Rightarrow> (string \<times> val) list \<Rightarrow> frame_obj \<Rightarrow> store \<Rightarrow> error + frame_obj" where
  "filter_loop pd [] db_tmp st = Inr db_tmp"
| "filter_loop pd ((col, v) # items) db_tmp st =
     bind_err (getitem (deref st db_tmp) col) (\<lambda>s.
       filter_loop pd items
         (Frame (loc (deref st db_tmp) (map (\<lambda>x. series_eq pd x v) (snd s)))) st)"

definition get_data_by_col_val ::
    "pandas \<Rightarrow> (string \<times> val) list \<Rightarrow> store \<Rightarrow> error + frame_obj" where
  "get_data_by_col_val pd col_val_dict st = filter_loop pd col_val_dict SelfDb st"

text \<open>
  \<^verbatim>\<open>_add_uuids\<close>: one call of \<^verbatim>\<open>create_uuid\<close> per row, the results assigned in place as the
  column \<^verbatim>\<open>id\<close>. The function \<open>uuid\<close> gives the result of the call made for the row at each
  position.
\<close>

definition add_uuids :: "(nat \<Rightarrow> string) \<Rightarrow> frame_obj \<Rightarrow> store \<Rightarrow> store \<times> frame_obj" where
  "add_uuids uuid df st =
     assign df
       (setitem ID (False, map (\<lambda>i. VStr (uuid i)) [0..<length (rows (deref st df))])
          (deref st df)) st"

text \<open>
  One statement \<^verbatim>\<open>df[c] = f(df[c])\<close> of \<^verbatim>\<open>_apply_dtypes\<close>, and the sequencing of such
  statements: when a statement raises, the columns assigned before it stay assigned.
\<close>

definition cast_column ::
    "string \<Rightarrow> (series \<Rightarrow> error + series) \<Rightarrow> frame_obj \<Rightarrow> store
     \<Rightarrow> error option \<times> store \<times> frame_obj" where
  "cast_column c f df st =
     (case bind_err (getitem (deref st df) c) f of
        Inl e \<Rightarrow> (Some e, st, df)
      | Inr s \<Rightarrow> (None, assign df (setitem c s (deref st df)) st))"

definition and_then ::
    "error option \<times> store \<times> frame_obj
     \<Rightarrow> (frame_obj \<Rightarrow> store \<Rightarrow> error option \<times> store \<times> frame_obj)
     \<Rightarrow> error option \<times> store \<times> frame_obj" where
  "and_then m f =
     (case m of (Some e, st, df) \<Rightarrow> (Some e, st, df) | (None, st, df) \<Rightarrow> f df st)"

definition apply_dtypes ::
    "pandas \<Rightarrow> frame_obj \<Rightarrow> store \<Rightarrow> error option \<times> store \<times> frame_obj" where
  "apply_dtypes pd df st =
     and_then (cast_column DATE (cast_series True (to_datetime_cell pd)) df st) (\<lambda>df st.
     and_then (cast_column RECONCILED (cast_series False (astype_bool pd)) df st) (\<lambda>df st.
     and_then (cast_column INFLOW (cast_series False (astype_float pd)) df st) (\<lambda>df st.
     and_then (cast_column OUTFLOW (cast_series False (astype_float pd)) df st) (\<lambda>df st.
     and_then (cast_column AMOUNT (cast_series False (astype_float pd)) df st) (\<lambda>df st.
     and_then (cast_column CAT (cast_series False (astype_category pd)) df st) (\<lambda>df st.
     and_then (cast_column ACCOUNT (cast_series False (astype_category pd)) df st) (\<lambda>df st.
     cast_column RECONCILED (cast_series False (astype_bool pd)) df st)))))))"

text \<open>
  \<^verbatim>\<open>insert_data\<close>: after \<^verbatim>\<open>self._db\<close> is rebound to the concatenation, the name \<^verbatim>\<open>df\<close> still
  denotes the frame it denoted before, so its value \<open>f\<close> is read before the assignment.
\<close>

definition insert_data ::
    "pandas \<Rightarrow> (nat \<Rightarrow> string) \<Rightarrow> frame_obj \<Rightarrow> store \<Rightarrow> error option \<times> store" where
  "insert_data pd uuid df st =
     (case add_uuids uuid df st of (st1, df1) \<Rightarrow>
     (case apply_dtypes pd df1 st1 of
        (Some e, st2, df2) \<Rightarrow> (Some e, st2)
      | (None, st2, df2) \<Rightarrow>
          let f = deref st2 df2 in
          (case pd_concat [db st2, f] of Inl e \<Rightarrow> (Some e, st2) | Inr d \<Rightarrow>
          (case getitem f ID of Inl e \<Rightarrow> (Some e, st2\<lparr>db := d\<rparr>) | Inr ids \<Rightarrow>
             save_db_from_uuid (str_list (snd ids)) (st2\<lparr>db := d\<rparr>)))))"

text \<open>
  The class \<^verbatim>\<open>Record\<close> of the module \<^verbatim>\<open>db\<close> is used through its attribute \<^verbatim>\<open>id\<close> and
  its method \<^verbatim>\<open>to_df()\<close> only.
\<close>

record Record =
  record_id :: string
  to_df :: dataframe

definition insert_record :: "Record \<Rightarrow> store \<Rightarrow> error option \<times> store" where
  "insert_record record st =
     (case pd_concat [db st, to_df record] of Inl e \<Rightarrow> (Some e, st) | Inr d \<Rightarrow>
        save_db_from_uuid [record_id record] (st\<lparr>db := d\<rparr>))"

definition update_data :: "store \<Rightarrow> error option \<times> store" where
  "update_data st = (None, st)"

definition delete_data :: "string list \<Rightarrow> store \<Rightarrow> error option \<times> store" where
  "delete_data uuid_list st =
     (case get_months_from_uuid uuid_list st of Inl e \<Rightarrow> (Some e, st) | Inr months \<Rightarrow>
     (case getitem (db st) ID of Inl e \<Rightarrow> (Some e, st) | Inr ids \<Rightarrow>
        save_db months
          (st\<lparr>db := loc (db st) (map (\<lambda>v. \<not> v \<in> VStr ` set uuid_list) (snd ids))\<rparr>)))"

section \<open>Vocabulary of the properties\<close>

text \<open>
  A row lies in the partition \<open>(y, m)\<close> when its date is a timestamp of that year and
  month; \<open>month_frame\<close> is the slice of a frame that \<^verbatim>\<open>save_db\<close> writes for a key, and
  \<open>write_all\<close> the files after writing the slices of a list of keys in turn.
\<close>

definition in_month :: "int \<times> int \<Rightarrow> row \<Rightarrow> bool" where
  "in_month k r =
     (year_of (cell r DATE) = Some (fst k) \<and> month_of (cell r DATE) = Some (snd k))"

definition month_frame :: "dataframe \<Rightarrow> int \<times> int \<Rightarrow> dataframe" where
  "month_frame df k = df\<lparr>rows := filter (in_month k) (rows df)\<rparr>"

definition write_all :: "dataframe \<Rightarrow> (int \<times> int) list \<Rightarrow> files \<Rightarrow> files" where
  "write_all df ks fs = fold (\<lambda>k. AList.update k (month_frame df k)) ks fs"

definition some_key :: "int \<times> int \<Rightarrow> int option \<times> int option" where
  "some_key k = (Some (fst k), Some (snd k))"

fun is_timestamp :: "val \<Rightarrow> bool" where
  "is_timestamp (VDate y m d) = True"
| "is_timestamp _ = False"

text \<open>
  A frame has datetime dates when it has the columns \<^verbatim>\<open>id\<close> and \<^verbatim>\<open>date\<close> and every date
  is a timestamp or NaT.
\<close>

definition datetime_dates :: "dataframe \<Rightarrow> bool" where
  "datetime_dates df =
     (ID \<in> set (columns df) \<and> DATE \<in> set (columns df)
      \<and> list_all (\<lambda>r. is_datetime (cell r DATE)) (rows df))"

text \<open>
  The first row of a frame with a given id, and the (year, month) pair the month
  derivation takes from it (the pair of NaN for NaT).
\<close>

definition first_row :: "dataframe \<Rightarrow> string \<Rightarrow> row option" where
  "first_row df uuid = find (\<lambda>r. cell r ID = VStr uuid) (rows df)"

definition first_month :: "dataframe \<Rightarrow> string \<Rightarrow> int option \<times> int option" where
  "first_month df uuid =
     (case find (\<lambda>r. cell r ID = VStr uuid) (rows df) of
        None \<Rightarrow> (None, None)
      | Some r \<Rightarrow> (year_of (cell r DATE), month_of (cell r DATE)))"

text \<open>The partition of a row whose date is a timestamp.\<close>

definition month_key :: "row \<Rightarrow> int \<times> int" where
  "month_key r = (case cell r DATE of VDate y m d \<Rightarrow> (y, m) | _ \<Rightarrow> (0, 0))"

text \<open>A row is filed in a store when its date is a timestamp whose year folder exists.\<close>

definition filed_row :: "store \<Rightarrow> row \<Rightarrow> bool" where
  "filed_row st r = (is_timestamp (cell r DATE) \<and> has_folder st (fst (month_key r)))"

text \<open>
  The month derivation reaches an id when the first row with that id has a timestamp or
  NaT as its date; the ids of a list are filed when the first row of each is filed.
\<close>

definition reached :: "dataframe \<Rightarrow> string \<Rightarrow> bool" where
  "reached df uuid =
     (case first_row df uuid of None \<Rightarrow> False | Some r \<Rightarrow> is_datetime (cell r DATE))"

definition filed_ids :: "store \<Rightarrow> string list \<Rightarrow> bool" where
  "filed_ids st uuid_list =
     list_all (\<lambda>u. case first_row (db st) u of None \<Rightarrow> False | Some r \<Rightarrow> filed_row st r)
       uuid_list"

definition without_ids :: "dataframe \<Rightarrow> string list \<Rightarrow> dataframe" where
  "without_ids df uuid_list =
     df\<lparr>rows := filter (\<lambda>r. cell r ID \<notin> VStr ` set uuid_list) (rows df)\<rparr>"

definition table_ids :: "dataframe \<Rightarrow> val list" where
  "table_ids df = map (\<lambda>r. cell r ID) (rows df)"

text \<open>
  What \<^verbatim>\<open>save_db\<close> does with a list of keys on a given frame, \<open>ok\<close> telling the years whose
  folder exists: the error it ends with, if any, and the keys whose files it has written
  by then.
\<close>

fun save_plan ::
    "dataframe \<Rightarrow> (int \<Rightarrow> bool) \<Rightarrow> (int option \<times> int option) list
     \<Rightarrow> error option \<times> (int \<times> int) list" where
  "save_plan df ok [] = (None, [])"
| "save_plan df ok ((year, month) # ms) =
     (if DATE \<notin> set (columns df) then (Some KeyError, [])
      else if DATE \<notin> set (datetimes df) then (Some AttributeError, [])
      else (case year of None \<Rightarrow> (Some ValueError, []) | Some y \<Rightarrow>
           (case month of None \<Rightarrow> (Some ValueError, []) | Some m \<Rightarrow>
             (if ok y then (fst (save_plan df ok ms), (y, m) # snd (save_plan df ok ms))
              else (Some OSError, [])))))"

text \<open>
  The frame-level reading of the in-place statements: the frame with the new ids, the
  frame after one cast, and the frame after the eight casts of \<^verbatim>\<open>_apply_dtypes\<close>.
\<close>

definition with_uuids :: "(nat \<Rightarrow> string) \<Rightarrow> dataframe \<Rightarrow> dataframe" where
  "with_uuids uuid df =
     setitem ID (False, map (\<lambda>i. VStr (uuid i)) [0..<length (rows df)]) df"

definition cast_column_frame ::
    "string \<Rightarrow> (series \<Rightarrow> error + series) \<Rightarrow> dataframe \<Rightarrow> error + dataframe" where
  "cast_column_frame c f df =
     bind_err (bind_err (getitem df c) f) (\<lambda>s. Inr (setitem c s df))"

definition cast_frame :: "pandas \<Rightarrow> dataframe \<Rightarrow> error + dataframe" where
  "cast_frame pd df =
     bind_err (cast_column_frame DATE (cast_series True (to_datetime_cell pd)) df) (\<lambda>df.
     bind_err (cast_column_frame RECONCILED (cast_series False (astype_bool pd)) df) (\<lambda>df.
     bind_err (cast_column_frame INFLOW (cast_series False (astype_float pd)) df) (\<lambda>df.
     bind_err (cast_column_frame OUTFLOW (cast_series False (astype_float pd)) df) (\<lambda>df.
     bind_err (cast_column_frame AMOUNT (cast_series False (astype_float pd)) df) (\<lambda>df.
     bind_err (cast_column_frame CAT (cast_series False (astype_category pd)) df) (\<lambda>df.
     bind_err (cast_column_frame ACCOUNT (cast_series False (astype_category pd)) df) (\<lambda>df.
     cast_column_frame RECONCILED (cast_series False (astype_bool pd)) df)))))))"

text \<open>
  The casts of \<^verbatim>\<open>_apply_dtypes\<close> seen on one row: the same eight casts in the same order,
  each on the cell of its column.
\<close>

definition coerce_cell :: "string \<Rightarrow> (val \<Rightarrow> error + val) \<Rightarrow> row \<Rightarrow> error + row" where
  "coerce_cell c f r = bind_err (f (cell r c)) (\<lambda>v. Inr (AList.update c v r))"

definition coerce_row :: "pandas \<Rightarrow> row \<Rightarrow> error + row" where
  "coerce_row pd r =
     bind_err (coerce_cell DATE (to_datetime_cell pd) r) (\<lambda>r.
     bind_err (coerce_cell RECONCILED (astype_bool pd) r) (\<lambda>r.
     bind_err (coerce_cell INFLOW (astype_float pd) r) (\<lambda>r.
     bind_err (coerce_cell OUTFLOW (astype_float pd) r) (\<lambda>r.
     bind_err (coerce_cell AMOUNT (astype_float pd) r) (\<lambda>r.
     bind_err (coerce_cell CAT (astype_category pd) r) (\<lambda>r.
     bind_err (coerce_cell ACCOUNT (astype_category pd) r) (\<lambda>r.
     coerce_cell RECONCILED (astype_bool pd) r)))))))"

definition cast_columns :: "string list" where
  "cast_columns = [DATE, RECONCILED, INFLOW, OUTFLOW, AMOUNT, CAT, ACCOUNT]"

definition cast_datetimes :: "string list \<Rightarrow> string list" where
  "cast_datetimes cs =
     set_dtype False RECONCILED (set_dtype False ACCOUNT (set_dtype False CAT
       (set_dtype False AMOUNT (set_dtype False OUTFLOW (set_dtype False INFLOW
         (set_dtype False RECONCILED (set_dtype True DATE cs)))))))"

text \<open>
  What the casts do to a record, cell by cell: the date is parsed, inflow, outflow and
  amount are cast to float, reconciled is cast to boolean (twice), cat and account are cast
  to categorical, payee and memo are kept.
\<close>

definition coerced :: "pandas \<Rightarrow> row \<Rightarrow> row \<Rightarrow> bool" where
  "coerced pd r r' =
     (to_datetime_cell pd (cell r DATE) = Inr (cell r' DATE)
      \<and> astype_float pd (cell r INFLOW) = Inr (cell r' INFLOW)
      \<and> astype_float pd (cell r OUTFLOW) = Inr (cell r' OUTFLOW)
      \<and> astype_float pd (cell r AMOUNT) = Inr (cell r' AMOUNT)
      \<and> (\<exists>b. astype_bool pd (cell r RECONCILED) = Inr b
              \<and> astype_bool pd b = Inr (cell r' RECONCILED))
      \<and> astype_category pd (cell r CAT) = Inr (cell r' CAT)
      \<and> astype_category pd (cell r ACCOUNT) = Inr (cell r' ACCOUNT)
      \<and> cell r' PAYEE = cell r PAYEE
      \<and> cell r' MEMO = cell r MEMO)"

text \<open>The concatenation of the table with one more frame.\<close>

definition appended :: "dataframe \<Rightarrow> dataframe \<Rightarrow> dataframe" where
  "appended d f =
     \<lparr>columns = union_columns [columns d, columns f],
      datetimes = concat_datetimes [d, f],
      rows = rows d @ rows f\<rparr>"

text \<open>
  Sequences of the mutating operations, run by a caller that goes on after an exception:
  \<open>run\<close> gives the store after the last call.
\<close>

datatype op =
  InsertData "nat \<Rightarrow> string" frame_obj | InsertRecord Record | DeleteData "string list"

definition exec :: "pandas \<Rightarrow> op \<Rightarrow> store \<Rightarrow> error option \<times> store" where
  "exec pd opn st =
     (case opn of
        InsertData uuid df \<Rightarrow> insert_data pd uuid df st
      | InsertRecord record \<Rightarrow> insert_record record st
      | DeleteData uuid_list \<Rightarrow> delete_data uuid_list st)"

fun run :: "pandas \<Rightarrow> op list \<Rightarrow> store \<Rightarrow> store" where
  "run pd [] st = st"
| "run pd (opn # ops) st = run pd ops (snd (exec pd opn st))"

text \<open>
  An operation brings fresh ids when the frame given to \<^verbatim>\<open>insert_data\<close> is a frame of the
  caller's own (not the table object) and the ids \<^verbatim>\<open>create_uuid\<close> returns for its rows
  differ from each other and from the ids of the table, and when the frame of a record
  given to \<^verbatim>\<open>insert_record\<close> is one row with the id of the record, which the table does not
  hold yet.
\<close>

fun fresh_op :: "store \<Rightarrow> op \<Rightarrow> bool" where
  "fresh_op st (InsertData uuid df) =
     (case df of
        SelfDb \<Rightarrow> False
      | Frame f \<Rightarrow>
          distinct (map uuid [0..<length (rows f)])
          \<and> list_all (\<lambda>i. VStr (uuid i) \<notin> set (table_ids (db st))) [0..<length (rows f)])"
| "fresh_op st (InsertRecord record) =
     (table_ids (to_df record) = [VStr (record_id record)]
      \<and> VStr (record_id record) \<notin> set (table_ids (db st)))"
| "fresh_op st (DeleteData uuid_list) = True"

fun fresh_run :: "pandas \<Rightarrow> op list \<Rightarrow> store \<Rightarrow> bool" where
  "fresh_run pd [] st = True"
| "fresh_run pd (opn # ops) st = (fresh_op st opn \<and> fresh_run pd ops (snd (exec pd opn st)))"

text \<open>
  An operation brings filed rows when the rows \<^verbatim>\<open>insert_data\<close> gets from the casts (if
  the casts succeed) are filed, and when the frame of a record given to \<^verbatim>\<open>insert_record\<close>
  has the columns \<^verbatim>\<open>id\<close> and \<^verbatim>\<open>date\<close>, the latter of dtype datetime64, and its rows are
  filed.
\<close>

fun filed_op :: "pandas \<Rightarrow> store \<Rightarrow> op \<Rightarrow> bool" where
  "filed_op pd st (InsertData uuid df) =
     (case df of
        SelfDb \<Rightarrow> False
      | Frame f \<Rightarrow>
          (case cast_frame pd (with_uuids uuid f) of
             Inl e \<Rightarrow> True
           | Inr f' \<Rightarrow> list_all (filed_row st) (rows f')))"
| "filed_op pd st (InsertRecord record) =
     (ID \<in> set (columns (to_df record)) \<and> DATE \<in> set (columns (to_df record))
      \<and> DATE \<in> set (datetimes (to_df record))
      \<and> list_all (filed_row st) (rows (to_df record)))"
| "filed_op pd st (DeleteData uuid_list) = True"

fun admissible :: "pandas \<Rightarrow> op list \<Rightarrow> store \<Rightarrow> bool" where
  "admissible pd [] st = True"
| "admissible pd (opn # ops) st =
     (fresh_op st opn \<and> filed_op pd st opn \<and> admissible pd ops (snd (exec pd opn st)))"




text \<open>The frame the casts make of a frame with new ids when its rows cast to \<open>rs\<close>.\<close>

definition cast_result :: "(nat \<Rightarrow> string) \<Rightarrow> dataframe \<Rightarrow> row list \<Rightarrow> dataframe" where
  "cast_result uuid f rs =
     \<lparr>columns = columns (with_uuids uuid f),
      datetimes = cast_datetimes (datetimes (with_uuids uuid f)),
      rows = rs\<rparr>"

text \<open>The partitions of the first rows of a list of ids, each once.\<close>

definition ids_keys :: "dataframe \<Rightarrow> string list \<Rightarrow> (int \<times> int) list" where
  "ids_keys df uuid_list =
     remdups (map (\<lambda>u. case first_row df u of None \<Rightarrow> (0, 0) | Some r \<Rightarrow> month_key r)
                uuid_list)"

section \<open>Example data\<close>

text \<open>
  A row with all ten columns, a frame in the column order of the schema whose date column
  is of dtype datetime64, and the casts of pandas on cells that already have the target
  type or hold a registry default (other cells are left as failures here; the examples do
  not use them).
\<close>

definition mk_row :: "string \<Rightarrow> val \<Rightarrow> string \<Rightarrow> string \<Rightarrow> rat \<Rightarrow> row" where
  "mk_row uuid date payee account amount =
     [(ID, VStr uuid), (DATE, date), (PAYEE, VStr payee), (CAT, VStr ''''), (MEMO, VStr ''''),
      (ACCOUNT, VStr account), (INFLOW, VFloat 0), (OUTFLOW, VFloat 0),
      (RECONCILED, VBool False), (AMOUNT, VFloat amount)]"

definition schema_frame :: "row list \<Rightarrow> dataframe" where
  "schema_frame rs = \<lparr>columns = get_db_col_vals, datetimes = [DATE], rows = rs\<rparr>"

fun number :: "val \<Rightarrow> rat option" where
  "number (VInt i) = Some (of_int i)"
| "number (VFloat x) = Some x"
| "number (VBool b) = Some (if b then 1 else 0)"
| "number _ = None"

definition typed_cells :: pandas where
  "typed_cells =
     \<lparr>to_datetime = (\<lambda>v. case v of VDate y m d \<Rightarrow> Inr (Some (y, m, d)) | VNaT \<Rightarrow> Inr None
                          | VNone \<Rightarrow> Inr None | VNaN \<Rightarrow> Inr None | _ \<Rightarrow> Inl ValueError),
      astype_bool = (\<lambda>v. case v of VBool b \<Rightarrow> Inr v | VInt i \<Rightarrow> Inr (VBool (i \<noteq> 0))
                          | _ \<Rightarrow> Inl ValueError),
      astype_float = (\<lambda>v. case v of VFloat x \<Rightarrow> Inr v | VInt i \<Rightarrow> Inr (VFloat (of_int i))
                          | _ \<Rightarrow> Inl ValueError),
      astype_category = (\<lambda>v. case v of VStr s \<Rightarrow> Inr v | VNone \<Rightarrow> Inr VNaN
                          | VNaN \<Rightarrow> Inr VNaN | _ \<Rightarrow> Inl ValueError),
      series_eq = (\<lambda>x v. case number v of
                           Some q \<Rightarrow> number x = Some q
                         | None \<Rightarrow> (case v of VStr s \<Rightarrow> x = v | VDate y m d \<Rightarrow> x = v
                                    | _ \<Rightarrow> False))\<rparr>"

definition row_x :: row where
  "row_x = mk_row ''X'' (VDate 2022 1 10) ''Grocer'' ''A'' 12"

definition row_y :: row where
  "row_y = mk_row ''Y'' (VDate 2023 5 2) ''Baker'' ''B'' 7"

text \<open>
  A store with the file of January 2022 (and no folder of another year), and one with the
  files of January 2022 and May 2023, whose two year folders are listed as well.
\<close>

definition store_x :: store where
  "store_x =
     \<lparr>db = schema_frame [row_x], disk = [((2022, 1), schema_frame [row_x])], folders = []\<rparr>"

definition store_xy :: store where
  "store_xy =
     \<lparr>db = schema_frame [row_x, row_y],
      disk = [((2022, 1), schema_frame [row_x]), ((2023, 5), schema_frame [row_y])],
      folders = [2022, 2023]\<rparr>"

definition raw_row :: "val \<Rightarrow> string \<Rightarrow> rat \<Rightarrow> row" where
  "raw_row date payee amount =
     [(DATE, date), (PAYEE, VStr payee), (AMOUNT, VFloat amount)] @ get_non_mandatory_cols"

definition raw_frame :: "row list \<Rightarrow> dataframe" where
  "raw_frame rs =
     \<lparr>columns = get_mandatory_cols @ map fst get_non_mandatory_cols, datetimes = [],
      rows = rs\<rparr>"

definition uuid_ab :: "nat \<Rightarrow> string" where
  "uuid_ab i = (if i = 0 then ''A'' else ''B'')"

text \<open>The store connected to an empty root folder.\<close>

definition store_empty :: store where
  "store_empty = \<lparr>db = empty_frame, disk = [], folders = []\<rparr>"

definition record_y :: Record where
  "record_y = \<lparr>record_id = ''Y'', to_df = schema_frame [row_y]\<rparr>"

definition record_x_may :: Record where
  "record_x_may =
     \<lparr>record_id = ''X'', to_df = schema_frame [mk_row ''X'' (VDate 2023 5 2) ''Baker'' ''B'' 7]\<rparr>"

definition frame_ab :: dataframe where
  "frame_ab =
     raw_frame [raw_row (VDate 2023 3 15) ''Store'' (85 / 2),
                raw_row (VDate 2022 1 10) ''Grocer'' 12]"

definition cast_row :: "val \<Rightarrow> string \<Rightarrow> rat \<Rightarrow> string \<Rightarrow> row" where
  "cast_row date payee amount uuid =
     [(DATE, date), (PAYEE, VStr payee), (AMOUNT, VFloat amount), (CAT, VStr ''''),
      (MEMO, VStr ''''), (ACCOUNT, VNaN), (INFLOW, VFloat 0), (OUTFLOW, VFloat 0),
      (RECONCILED, VBool False), (ID, VStr uuid)]"

definition rows_ab :: "row list" where
  "rows_ab =
     [cast_row (VDate 2023 3 15) ''Store'' (85 / 2) ''A'',
      cast_row (VDate 2022 1 10) ''Grocer'' 12 ''B'']"

definition frame_mandatory :: dataframe where
  "frame_mandatory =
     \<lparr>columns = get_mandatory_cols, datetimes = [],
      rows = [[(DATE, VDate 2023 3 15), (PAYEE, VStr ''Store''), (AMOUNT, VFloat (85 / 2))]]\<rparr>"

text \<open>A table whose date column is of dtype object and holds a string.\<close>

definition store_text :: store where
  "store_text =
     \<lparr>db = \<lparr>columns = get_db_col_vals, datetimes = [],
            rows = [mk_row ''S'' (VStr ''2022-01-10'') ''Grocer'' ''A'' 12]\<rparr>,
      disk = [], folders = []\<rparr>"

text \<open>
  A table with a row whose date is NaT, which is in no file; a table whose date column
  holds a timestamp but is of dtype object.
\<close>

definition store_nat :: store where
  "store_nat =
     \<lparr>db = schema_frame [row_x, mk_row ''N'' VNaT ''Baker'' ''B'' 7],
      disk = [((2022, 1), schema_frame [row_x])], folders = []\<rparr>"

definition store_object :: store where
  "store_object =
     \<lparr>db = \<lparr>columns = get_db_col_vals, datetimes = [], rows = [row_x]\<rparr>,
      disk = [((2022, 1), \<lparr>columns = get_db_col_vals, datetimes = [], rows = [row_x]\<rparr>)],
      folders = []\<rparr>"

text \<open>
  The table after the two records of \<open>frame_ab\<close> are inserted into the table with the rows
  X and Y, and a sequence of calls: that insertion, a deletion, and a deletion of an id
  that is not in the table.
\<close>

definition table_ab :: dataframe where
  "table_ab = appended (db store_xy) (cast_result uuid_ab frame_ab rows_ab)"

definition ops_example :: "op list" where
  "ops_example = [InsertData uuid_ab (Frame frame_ab), DeleteData [''B''], DeleteData [''Z'']]"

text \<open>A store whose one file and table have the columns \<^verbatim>\<open>id\<close> and \<^verbatim>\<open>date\<close> only.\<close>

definition store_min :: store where
  "store_min =
     \<lparr>db = \<lparr>columns = [ID, DATE], datetimes = [DATE],
            rows = [[(ID, VStr ''X''), (DATE, VDate 2022 1 10)]]\<rparr>,
      disk = [((2022, 1), \<lparr>columns = [ID, DATE], datetimes = [DATE],
                           rows = [[(ID, VStr ''X''), (DATE, VDate 2022 1 10)]]\<rparr>)],
      folders = []\<rparr>"

section \<open>Facts about the frame operations\<close>

lemma bind_err_Inr [simp]: "bind_err (Inr x) f = f x"
  by (simp add: bind_err_def)

lemma bind_err_Inl [simp]: "bind_err (Inl e) f = Inl e"
  by (simp add: bind_err_def)

lemma loc_map: "loc df (map p (rows df)) = df\<lparr>rows := filter p (rows df)\<rparr>"
proof -
  have "map fst (filter snd (zip xs (map p xs))) = filter p xs" for xs :: "row list"
    by (induction xs) auto
  then show ?thesis by (simp add: loc_def)
qed

text \<open>
  C9: every call of disconnect fails with the unsupported-operation error
  (NotImplementedError), whatever the state of the store, and leaves the frame in memory
  and every file as they were.
\<close>

theorem disconnect_unsupported:
  "fst (disconnect st) = Some NotImplementedError \<and> snd (disconnect st) = st
   \<and> db (snd (disconnect st)) = db st \<and> disk (snd (disconnect st)) = disk st"
  by (simp add: disconnect_def)

section \<open>Saving partitions\<close>

lemma getitem_DATE_dt:
  "bind_err (getitem df DATE) dt =
     (if DATE \<notin> set (columns df) then Inl KeyError
      else if DATE \<notin> set (datetimes df) then Inl AttributeError
      else Inr (map (\<lambda>r. cell r DATE) (rows df)))"
  by (simp add: getitem_def dt_def)

lemma map2_conj_map:
  "map2 (\<and>) (map f xs) (map g xs) = map (\<lambda>x. f x \<and> g x) xs"
  by (induction xs) auto

lemma save_db_cond:
  "loc df (map2 (\<and>) (map ((\<lambda>v. year_of v = Some y) \<circ> (\<lambda>r. cell r DATE)) (rows df))
                       (map ((\<lambda>v. month_of v = Some m) \<circ> (\<lambda>r. cell r DATE)) (rows df)))
   = month_frame df (y, m)"
proof -
  have "map2 (\<and>) (map ((\<lambda>v. year_of v = Some y) \<circ> (\<lambda>r. cell r DATE)) (rows df))
                       (map ((\<lambda>v. month_of v = Some m) \<circ> (\<lambda>r. cell r DATE)) (rows df))
        = map (in_month (y, m)) (rows df)"
    by (simp add: map2_conj_map in_month_def comp_def)
  then show ?thesis by (simp add: loc_map month_frame_def)
qed

lemma has_folder_iff:
  "has_folder st y \<longleftrightarrow> y \<in> set (folders st) \<or> y \<in> fst ` fst ` set (disk st)"
  by (simp add: has_folder_def image_comp)

lemma has_folder_update:
  "has_folder st (fst k) \<Longrightarrow> has_folder (st\<lparr>disk := AList.update k f (disk st)\<rparr>) = has_folder st"
proof (rule ext)
  fix y assume h: "has_folder st (fst k)"
  have "fst ` set (AList.update k f (disk st)) = insert k (fst ` set (disk st))"
    using dom_update [of k f "disk st"] by (simp add: dom_map_of_conv_image_fst)
  with h show "has_folder (st\<lparr>disk := AList.update k f (disk st)\<rparr>) y = has_folder st y"
    by (auto simp: has_folder_iff)
qed

lemma save_db_plan:
  "save_db ms st =
     (fst (save_plan (db st) (has_folder st) ms),
      st\<lparr>disk := write_all (db st) (snd (save_plan (db st) (has_folder st) ms)) (disk st)\<rparr>)"
proof (induction ms arbitrary: st)
  case Nil
  show ?case by (simp add: write_all_def)
next
  case (Cons k ms)
  obtain year month where k: "k = (year, month)" by (cases k)
  show ?case
  proof (cases "DATE \<in> set (columns (db st)) \<and> DATE \<in> set (datetimes (db st))
                \<and> year \<noteq> None \<and> month \<noteq> None")
    case False
    then show ?thesis
      unfolding k by (auto simp: getitem_DATE_dt py_int_def write_all_def split: option.split)
  next
    case True
    then obtain y m where ym: "year = Some y" "month = Some m" by auto
    show ?thesis
    proof (cases "has_folder st y")
      case False
      with True ym show ?thesis
        unfolding k by (simp add: getitem_DATE_dt py_int_def to_parquet_def write_all_def)
    next
      case h: True
      let ?st = "st\<lparr>disk := AList.update (y, m) (month_frame (db st) (y, m)) (disk st)\<rparr>"
      have hf: "has_folder ?st = has_folder st"
        using has_folder_update [of st "(y, m)"] h by simp
      have "save_db (k # ms) st = save_db ms ?st"
        unfolding k using True ym h
        by (simp add: getitem_DATE_dt py_int_def to_parquet_def save_db_cond)
      also have "\<dots> = (fst (save_plan (db st) (has_folder st) ms),
          st\<lparr>disk := write_all (db st) (snd (save_plan (db st) (has_folder st) ms))
                      (AList.update (y, m) (month_frame (db st) (y, m)) (disk st))\<rparr>)"
        unfolding Cons.IH [of ?st] by (simp add: hf)
      finally show ?thesis
        unfolding k using True ym h by (simp add: write_all_def)
    qed
  qed
qed

lemma map_of_write_all:
  "map_of (write_all df ks fs) k = (if k \<in> set ks then Some (month_frame df k) else map_of fs k)"
  unfolding write_all_def
  by (induction ks arbitrary: fs) (auto simp: update_conv')

lemma write_all_same:
  "\<forall>k\<in>set ks. map_of fs k = Some (month_frame df k) \<Longrightarrow> write_all df ks fs = fs"
  unfolding write_all_def
  by (induction ks arbitrary: fs) (auto simp: update_triv)

lemma write_all_idem: "write_all df ks (write_all df ks fs) = write_all df ks fs"
  by (rule write_all_same) (simp add: map_of_write_all)

lemma keys_write_all: "fst ` set (write_all df ks fs) = set ks \<union> fst ` set fs"
  unfolding write_all_def
  by (induction ks arbitrary: fs) (auto simp: dom_update)


lemma save_plan_folders: "\<forall>k\<in>set (snd (save_plan df ok ms)). ok (fst k)"
  by (induction df ok ms rule: save_plan.induct) (auto split: option.splits)

lemma has_folder_write_all:
  "\<forall>k\<in>set ks. has_folder st (fst k) \<Longrightarrow>
   has_folder (st\<lparr>disk := write_all df ks (disk st)\<rparr>) = has_folder st"
proof (rule ext)
  fix y assume h: "\<forall>k\<in>set ks. has_folder st (fst k)"
  then show "has_folder (st\<lparr>disk := write_all df ks (disk st)\<rparr>) y = has_folder st y"
    by (auto simp: has_folder_iff keys_write_all image_Un)
qed

lemma has_folder_save_db: "has_folder (snd (save_db ms st)) = has_folder st"
  by (simp add: save_db_plan [of ms] has_folder_write_all save_plan_folders)

section \<open>Months of a list of ids\<close>

lemma loc_comp:
  "loc df (map (p \<circ> (\<lambda>r. cell r c)) (rows df)) = df\<lparr>rows := filter (\<lambda>r. p (cell r c)) (rows df)\<rparr>"
  using loc_map [of df "\<lambda>r. p (cell r c)"] by (simp add: comp_def)

lemma iloc0_filter:
  "iloc0 (map f (filter P xs)) = (case find P xs of None \<Rightarrow> Inl IndexError | Some x \<Rightarrow> Inr (f x))"
  by (induction xs) (auto simp: iloc0_def)

lemma lookup_date_eq:
  "lookup_date df u =
     (if ID \<notin> set (columns df) \<or> DATE \<notin> set (columns df) then Inl KeyError
      else case find (\<lambda>r. cell r ID = VStr u) (rows df) of
             None \<Rightarrow> Inl IndexError
           | Some r \<Rightarrow> Inr (cell r DATE))"
  by (simp add: lookup_date_def getitem_def loc_comp iloc0_filter)

lemma find_None_ids: "find (\<lambda>r. cell r ID = VStr u) (rows df) = None \<longleftrightarrow> VStr u \<notin> set (table_ids df)"
  by (force simp: find_None_iff table_ids_def)


lemma months_loop_typed:
  assumes "datetime_dates df"
  shows "months_loop df ids =
     (if list_all (\<lambda>u. VStr u \<in> set (table_ids df)) ids then Inr (map (first_month df) ids)
      else Inl IndexError)"
proof (induction ids)
  case Nil
  show ?case by simp
next
  case (Cons a ids)
  show ?case
  proof (cases "find (\<lambda>r. cell r ID = VStr a) (rows df)")
    case None
    with assms show ?thesis
      by (simp add: lookup_date_eq datetime_dates_def find_None_ids [symmetric])
  next
    case (Some r)
    then have r: "r \<in> set (rows df)" by (auto simp: find_Some_iff)
    with assms have "is_datetime (cell r DATE)" by (auto simp: datetime_dates_def list_all_iff)
    moreover from Some have "VStr a \<in> set (table_ids df)"
      using find_None_ids [of a df] by auto
    ultimately show ?thesis using assms Some Cons.IH
      by (simp add: lookup_date_eq datetime_dates_def year_month_def first_month_def)
  qed
qed


lemma get_months_typed:
  assumes "datetime_dates (db st)"
  shows "get_months_from_uuid ids st =
     (if list_all (\<lambda>u. VStr u \<in> set (table_ids (db st))) ids
      then Inr (remdups (map (first_month (db st)) ids)) else Inl IndexError)"
  by (simp add: get_months_from_uuid_def months_loop_typed [OF assms])

lemmas ex_defs = store_x_def store_xy_def schema_frame_def get_db_col_vals_def row_x_def
  row_y_def mk_row_def cell_def

lemma save_db_twice: "save_db ms (snd (save_db ms st)) = save_db ms st"
proof -
  let ?ks = "snd (save_plan (db st) (has_folder st) ms)"
  have "has_folder (st\<lparr>disk := write_all (db st) ?ks (disk st)\<rparr>) = has_folder st"
    by (rule has_folder_write_all) (rule save_plan_folders)
  then show ?thesis
    by (simp add: save_db_plan [of ms] write_all_idem)
qed

lemma save_db_written:
  assumes "fst (save_db ms st) = None" "(Some y, Some m) \<in> set ms"
  shows "map_of (disk (snd (save_db ms st))) (y, m) = Some (month_frame (db st) (y, m))"
proof -
  have "fst (save_plan df ok ms) = None \<Longrightarrow> (Some y, Some m) \<in> set ms
        \<Longrightarrow> (y, m) \<in> set (snd (save_plan df ok ms))" for df ok
    by (induction ms) (auto split: if_splits option.splits)
  with assms show ?thesis
    by (simp add: save_db_plan [of ms] map_of_write_all)
qed

text \<open>
  C8: a second call of \<^verbatim>\<open>save_db\<close> with the same keys and the same table ends as the first
  and leaves every file as the first call left it; and the file a successful call writes
  for a key holds the rows of the table of that year and month, whatever the files held
  before.
\<close>

theorem save_db_idempotent:
  "save_db ms (snd (save_db ms st)) = save_db ms st
   \<and> (fst (save_db ms st) = None \<longrightarrow>
        (\<forall>y m. (Some y, Some m) \<in> set ms \<longrightarrow>
           map_of (disk (snd (save_db ms st))) (y, m) = Some (month_frame (db st) (y, m))))"
  using save_db_twice save_db_written by blast

text \<open>
  C8 on the table with the rows X and Y, saving both months into the two year folders
  while they hold no file.
\<close>

theorem save_db_idempotent_witness:
  "save_db [(Some 2023, Some 5), (Some 2022, Some 1)]
     (snd (save_db [(Some 2023, Some 5), (Some 2022, Some 1)] (store_xy\<lparr>disk := []\<rparr>)))
   = save_db [(Some 2023, Some 5), (Some 2022, Some 1)] (store_xy\<lparr>disk := []\<rparr>)
   \<and> fst (save_db [(Some 2023, Some 5), (Some 2022, Some 1)] (store_xy\<lparr>disk := []\<rparr>)) = None
   \<and> (Some 2022, Some 1) \<in> set [(Some 2023, Some 5), (Some (2022::int), Some (1::int))]
   \<and> map_of (disk (snd (save_db [(Some 2023, Some 5), (Some 2022, Some 1)]
         (store_xy\<lparr>disk := []\<rparr>)))) (2022, 1) = Some (schema_frame [row_x])"
proof -
  have ok: "fst (save_db [(Some 2023, Some 5), (Some 2022, Some 1)] (store_xy\<lparr>disk := []\<rparr>)) = None"
    by (simp add: save_db_plan has_folder_def ex_defs)
  have mf: "month_frame (db (store_xy\<lparr>disk := []\<rparr>)) (2022, 1) = schema_frame [row_x]"
    by (simp add: month_frame_def in_month_def ex_defs)
  from save_db_idempotent [of "[(Some 2023, Some 5), (Some 2022, Some 1)]" "store_xy\<lparr>disk := []\<rparr>"]
    ok mf
  show ?thesis by simp
qed



lemma months_loop_KeyError:
  "ID \<notin> set (columns df) \<or> DATE \<notin> set (columns df) \<Longrightarrow> ids \<noteq> [] \<Longrightarrow>
   months_loop df ids = Inl KeyError"
  by (cases ids) (auto simp: lookup_date_eq)

lemma reached_step:
  assumes "ID \<in> set (columns df)" "DATE \<in> set (columns df)"
  shows "bind_err (lookup_date df u) year_month =
     (if reached df u then Inr (first_month df u)
      else Inl (if VStr u \<in> set (table_ids df) then AttributeError else IndexError))"
proof (cases "find (\<lambda>r. cell r ID = VStr u) (rows df)")
  case None
  with assms show ?thesis
    using find_None_ids [of u df]
    by (simp add: lookup_date_eq reached_def first_row_def)
next
  case (Some r)
  then have "VStr u \<in> set (table_ids df)"
    using find_None_ids [of u df] by auto
  with assms Some show ?thesis
    by (simp add: lookup_date_eq reached_def first_row_def year_month_def first_month_def)
qed

lemma months_loop_reached:
  assumes "ID \<in> set (columns df)" "DATE \<in> set (columns df)"
  shows "list_all (reached df) ids \<Longrightarrow> months_loop df ids = Inr (map (first_month df) ids)"
  by (induction ids) (simp_all add: reached_step [OF assms])

lemma months_loop_stops:
  assumes "ID \<in> set (columns df)" "DATE \<in> set (columns df)"
  shows "list_all (reached df) pre \<Longrightarrow> \<not> reached df u \<Longrightarrow>
     months_loop df (pre @ u # post) =
       Inl (if VStr u \<in> set (table_ids df) then AttributeError else IndexError)"
  by (induction pre) (simp_all add: reached_step [OF assms])

text \<open>
  C7 as stated fails: on the table of an empty root, which has no column \<^verbatim>\<open>id\<close>,
  \<^verbatim>\<open>_get_months_from_uuid\<close> fails with KeyError, not with an index error, for an id that
  has no row; and on a table whose dates are strings it fails with AttributeError at the
  first id, before it reaches an id that has no row.
\<close>

theorem get_months_from_uuid_other_errors:
  "VStr ''X'' \<notin> set (table_ids (db store_empty))
   \<and> get_months_from_uuid [''X''] store_empty = Inl KeyError
   \<and> VStr ''Z'' \<notin> set (table_ids (db store_text))
   \<and> get_months_from_uuid [''S'', ''Z''] store_text = Inl AttributeError"
  by (simp add: get_months_from_uuid_def lookup_date_eq year_month_def table_ids_def
      store_empty_def empty_frame_def store_text_def get_db_col_vals_def mk_row_def cell_def)

text \<open>
  C7 as amended. A non-empty id list makes \<^verbatim>\<open>_get_months_from_uuid\<close> fail with KeyError
  when the table lacks the column \<^verbatim>\<open>id\<close> or \<^verbatim>\<open>date\<close>. On a table with both columns: when
  every id has a row and the first row of each id has a timestamp or NaT as its date, the
  result holds the (year, month) pairs of those first rows (the pair of NaN for NaT), each
  pair once; and the first id of the list that has no row, or whose first row has another
  kind of date, ends the call: with IndexError when it has no row, with AttributeError
  otherwise.
\<close>

theorem get_months_from_uuid_first_match:
  "(uuid_lst \<noteq> [] \<and> (ID \<notin> set (columns (db st)) \<or> DATE \<notin> set (columns (db st))) \<longrightarrow>
      get_months_from_uuid uuid_lst st = Inl KeyError)
   \<and> (ID \<in> set (columns (db st)) \<and> DATE \<in> set (columns (db st)) \<longrightarrow>
        (list_all (reached (db st)) uuid_lst \<longrightarrow>
           (\<exists>ms. get_months_from_uuid uuid_lst st = Inr ms \<and> distinct ms
                 \<and> set ms = first_month (db st) ` set uuid_lst))
        \<and> (\<forall>pre u post. uuid_lst = pre @ u # post \<and> list_all (reached (db st)) pre
               \<and> \<not> reached (db st) u \<longrightarrow>
             get_months_from_uuid uuid_lst st =
               Inl (if VStr u \<in> set (table_ids (db st)) then AttributeError else IndexError)))"
  by (auto simp: get_months_from_uuid_def months_loop_KeyError months_loop_reached
      months_loop_stops)

text \<open>C7 as amended, on the table with the rows X (January 2022) and Y (May 2023).\<close>

theorem get_months_from_uuid_first_match_witness:
  "ID \<in> set (columns (db store_xy)) \<and> DATE \<in> set (columns (db store_xy))
   \<and> list_all (reached (db store_xy)) [''Y'', ''X'', ''Y'']
   \<and> first_month (db store_xy) ''X'' = (Some 2022, Some 1)
   \<and> first_month (db store_xy) ''Y'' = (Some 2023, Some 5)
   \<and> (\<exists>ms. get_months_from_uuid [''Y'', ''X'', ''Y''] store_xy = Inr ms \<and> distinct ms
            \<and> set ms = first_month (db store_xy) ` set [''Y'', ''X'', ''Y''])
   \<and> list_all (reached (db store_xy)) [''X''] \<and> \<not> reached (db store_xy) ''Z''
   \<and> VStr ''Z'' \<notin> set (table_ids (db store_xy))
   \<and> get_months_from_uuid [''X'', ''Z'', ''Y''] store_xy = Inl IndexError"
proof -
  have c: "ID \<in> set (columns (db store_xy))" "DATE \<in> set (columns (db store_xy))"
    by (simp_all add: ex_defs)
  have p: "list_all (reached (db store_xy)) [''Y'', ''X'', ''Y'']"
    "list_all (reached (db store_xy)) [''X'']" "\<not> reached (db store_xy) ''Z''"
    by (simp_all add: reached_def first_row_def ex_defs)
  have z: "VStr ''Z'' \<notin> set (table_ids (db store_xy))"
    by (simp add: table_ids_def ex_defs)
  have fx: "first_month (db store_xy) ''X'' = (Some 2022, Some 1)"
    by (simp add: first_month_def ex_defs)
  have fy: "first_month (db store_xy) ''Y'' = (Some 2023, Some 5)"
    by (simp add: first_month_def ex_defs)
  note t1 = get_months_from_uuid_first_match [of "[''Y'', ''X'', ''Y'']" store_xy]
  note t2 = get_months_from_uuid_first_match [of "[''X'', ''Z'', ''Y'']" store_xy]
  from t1 c p(1) have a: "\<exists>ms. get_months_from_uuid [''Y'', ''X'', ''Y''] store_xy = Inr ms
      \<and> distinct ms \<and> set ms = first_month (db store_xy) ` set [''Y'', ''X'', ''Y'']"
    by blast
  from t2 c have q: "\<forall>pre u post. [''X'', ''Z'', ''Y''] = pre @ u # post
      \<and> list_all (reached (db store_xy)) pre \<and> \<not> reached (db store_xy) u \<longrightarrow>
      get_months_from_uuid [''X'', ''Z'', ''Y''] store_xy =
        Inl (if VStr u \<in> set (table_ids (db store_xy)) then AttributeError else IndexError)"
    by blast
  from q [rule_format, of "[''X'']" "''Z''" "[''Y'']"] p(2,3) z
  have b: "get_months_from_uuid [''X'', ''Z'', ''Y''] store_xy = Inl IndexError"
    by simp
  from c p z fx fy a b show ?thesis by blast
qed

section \<open>Filtering by column values\<close>

lemma filter_loop_eq:
  "filter_loop pd items df st =
     (if fst ` set items \<subseteq> set (columns (deref st df))
      then Inr (if items = [] then df
                else Frame ((deref st df)\<lparr>rows :=
                       filter (\<lambda>r. list_all (\<lambda>(c, v). series_eq pd (cell r c) v) items)
                         (rows (deref st df))\<rparr>))
      else Inl KeyError)"
proof (induction items arbitrary: df)
  case Nil
  show ?case by simp
next
  case (Cons a items)
  obtain c v where a: "a = (c, v)" by (cases a)
  let ?d = "deref st df"
  let ?df = "Frame (?d\<lparr>rows := filter (\<lambda>r. series_eq pd (cell r c) v) (rows ?d)\<rparr>)"
  have d: "deref st ?df = ?d\<lparr>rows := filter (\<lambda>r. series_eq pd (cell r c) v) (rows ?d)\<rparr>"
    by (simp add: deref_def)
  show ?case
  proof (cases "c \<in> set (columns ?d)")
    case False
    then show ?thesis by (simp add: a getitem_def)
  next
    case True
    then have "filter_loop pd (a # items) df st = filter_loop pd items ?df st"
      by (simp add: a getitem_def loc_comp)
    also have "\<dots> = (if fst ` set (a # items) \<subseteq> set (columns ?d)
      then Inr (Frame (?d\<lparr>rows :=
             filter (\<lambda>r. list_all (\<lambda>(c, v). series_eq pd (cell r c) v) (a # items)) (rows ?d)\<rparr>))
      else Inl KeyError)"
      unfolding Cons.IH [of ?df] d using True
      by (simp add: a conj_commute cong: conj_cong)
    finally show ?thesis by simp
  qed
qed

text \<open>
  C6 as stated fails: the table of an empty root has no columns, and filtering it by the
  schema column \<^verbatim>\<open>account\<close> fails with KeyError instead of returning the matching rows.
\<close>

theorem get_data_by_col_val_empty_root:
  "set (map fst [(ACCOUNT, VStr ''A'')]) \<subseteq> set get_db_col_vals
   \<and> init [] [] = Inr store_empty
   \<and> get_data_by_col_val typed_cells [(ACCOUNT, VStr ''A'')] store_empty = Inl KeyError"
  by (simp add: get_data_by_col_val_def getitem_def deref_def init_def connect_def
      store_empty_def empty_frame_def get_db_col_vals_def)

text \<open>
  C6 as amended: when the keys of the filter mapping are columns of the table (schema
  columns or others), \<^verbatim>\<open>get_data_by_col_val\<close> returns a frame that is the table restricted
  to the rows on which every column of the mapping equals its value (the element-wise
  \<^verbatim>\<open>==\<close> of pandas); when some key is not a column of the table it fails with KeyError;
  with an empty mapping it returns the table object itself.
\<close>

theorem get_data_by_col_val_all_filters:
  "(set (map fst col_val_dict) \<subseteq> set (columns (db st)) \<longrightarrow>
      (\<exists>df. get_data_by_col_val pd col_val_dict st = Inr df
            \<and> deref st df =
                (db st)\<lparr>rows := filter (\<lambda>r. list_all (\<lambda>(c, v). series_eq pd (cell r c) v)
                                               col_val_dict) (rows (db st))\<rparr>))
   \<and> (\<not> set (map fst col_val_dict) \<subseteq> set (columns (db st)) \<longrightarrow>
        get_data_by_col_val pd col_val_dict st = Inl KeyError)
   \<and> get_data_by_col_val pd [] st = Inr SelfDb"
  by (simp add: get_data_by_col_val_def filter_loop_eq deref_def)

text \<open>C6 as amended, on the table with the rows X and Y, filtering by account and cat.\<close>

theorem get_data_by_col_val_all_filters_witness:
  "set (map fst [(ACCOUNT, VStr ''A''), (CAT, VStr '''')]) \<subseteq> set (columns (db store_xy))
   \<and> get_data_by_col_val typed_cells [(ACCOUNT, VStr ''A''), (CAT, VStr '''')] store_xy
       = Inr (Frame (schema_frame [row_x]))
   \<and> \<not> set (map fst [(''owner'', VStr ''A'')]) \<subseteq> set (columns (db store_xy))
   \<and> get_data_by_col_val typed_cells [(''owner'', VStr ''A'')] store_xy = Inl KeyError
   \<and> get_data_by_col_val typed_cells [] store_xy = Inr SelfDb"
proof -
  have a: "set (map fst [(ACCOUNT, VStr ''A''), (CAT, VStr '''')]) \<subseteq> set (columns (db store_xy))"
    by (simp add: ex_defs)
  have b: "\<not> set (map fst [(''owner'', VStr ''A'')]) \<subseteq> set (columns (db store_xy))"
    by (simp add: ex_defs)
  have e: "get_data_by_col_val typed_cells [(ACCOUNT, VStr ''A''), (CAT, VStr '''')] store_xy
       = Inr (Frame (schema_frame [row_x]))"
    by (simp add: get_data_by_col_val_def filter_loop_eq deref_def ex_defs typed_cells_def)
  note t = get_data_by_col_val_all_filters [of "[(''owner'', VStr ''A'')]" store_xy typed_cells]
  from t a b e show ?thesis by simp
qed

section \<open>Casting and inserting rows\<close>

lemma traverse_Inr_D:
  "traverse f xs = Inr ys \<Longrightarrow> list_all2 (\<lambda>x y. f x = Inr y) xs ys"
  by (induction xs arbitrary: ys) (auto split: sum.splits)

lemma traverse_Inr_I:
  "list_all2 (\<lambda>x y. f x = Inr y) xs ys \<Longrightarrow> traverse f xs = Inr ys"
  by (induction xs ys rule: list_all2_induct) auto

lemma traverse_Inr_iff:
  "traverse f xs = Inr ys \<longleftrightarrow> list_all2 (\<lambda>x y. f x = Inr y) xs ys"
  using traverse_Inr_D traverse_Inr_I by blast

lemma bind_err_Inr_iff: "bind_err m f = Inr y \<longleftrightarrow> (\<exists>x. m = Inr x \<and> f x = Inr y)"
  by (cases m) auto

lemma cast_column_frame_cells:
  "cast_column_frame c (cast_series b f) df =
     (if c \<in> set (columns df)
      then bind_err (traverse f (map (\<lambda>r. cell r c) (rows df)))
             (\<lambda>ws. Inr (setitem c (b, ws) df))
      else Inl KeyError)"
  by (cases "traverse f (map (\<lambda>r. cell r c) (rows df))")
     (simp_all add: cast_column_frame_def cast_series_def getitem_def)

lemma cast_column_frame_Inr_iff:
  "cast_column_frame c (cast_series b f) df = Inr df' \<longleftrightarrow>
     c \<in> set (columns df) \<and> columns df' = columns df
     \<and> datetimes df' = set_dtype b c (datetimes df)
     \<and> list_all2 (\<lambda>r r'. coerce_cell c f r = Inr r') (rows df) (rows df')"
proof -
  have z: "list_all2 (\<lambda>x y. f x = Inr y) (map (\<lambda>r. cell r c) rs) ws \<Longrightarrow>
        list_all2 (\<lambda>r r'. coerce_cell c f r = Inr r') rs
          (map (\<lambda>(r, v). AList.update c v r) (zip rs ws))" for rs ws
    by (induction rs arbitrary: ws) (auto simp: list_all2_Cons1 coerce_cell_def)
  have y: "list_all2 (\<lambda>r r'. coerce_cell c f r = Inr r') rs rs' \<Longrightarrow>
        \<exists>ws. list_all2 (\<lambda>x y. f x = Inr y) (map (\<lambda>r. cell r c) rs) ws
             \<and> rs' = map (\<lambda>(r, v). AList.update c v r) (zip rs ws)" for rs rs'
  proof (induction rs arbitrary: rs')
    case Nil
    then show ?case by simp
  next
    case (Cons r rs)
    then obtain r' rs'' where rs': "rs' = r' # rs''" "coerce_cell c f r = Inr r'"
      "list_all2 (\<lambda>r r'. coerce_cell c f r = Inr r') rs rs''"
      by (auto simp: list_all2_Cons1)
    from Cons.IH [OF rs'(3)] obtain ws
      where ws: "list_all2 (\<lambda>x y. f x = Inr y) (map (\<lambda>r. cell r c) rs) ws"
        "rs'' = map (\<lambda>(r, v). AList.update c v r) (zip rs ws)" by blast
    from rs'(2) obtain v where v: "f (cell r c) = Inr v" "r' = AList.update c v r"
      by (auto simp: coerce_cell_def bind_err_def split: sum.splits)
    have "list_all2 (\<lambda>x y. f x = Inr y) (map (\<lambda>r. cell r c) (r # rs)) (v # ws)
          \<and> rs' = map (\<lambda>(r, v). AList.update c v r) (zip (r # rs) (v # ws))"
      using v ws rs'(1) by simp
    then show ?case by blast
  qed
  show ?thesis
  proof (cases "c \<in> set (columns df)")
    case False
    then show ?thesis by (simp add: cast_column_frame_cells)
  next
    case True
    show ?thesis
    proof
      assume "cast_column_frame c (cast_series b f) df = Inr df'"
      with True obtain ws where ws: "traverse f (map (\<lambda>r. cell r c) (rows df)) = Inr ws"
        "df' = setitem c (b, ws) df"
        by (auto simp: cast_column_frame_cells bind_err_Inr_iff)
      with True z [of "rows df" ws] show "c \<in> set (columns df) \<and> columns df' = columns df
         \<and> datetimes df' = set_dtype b c (datetimes df)
         \<and> list_all2 (\<lambda>r r'. coerce_cell c f r = Inr r') (rows df) (rows df')"
        by (simp add: traverse_Inr_iff setitem_def)
    next
      assume a: "c \<in> set (columns df) \<and> columns df' = columns df
         \<and> datetimes df' = set_dtype b c (datetimes df)
         \<and> list_all2 (\<lambda>r r'. coerce_cell c f r = Inr r') (rows df) (rows df')"
      with y [of "rows df" "rows df'"] obtain ws
        where ws: "list_all2 (\<lambda>x y. f x = Inr y) (map (\<lambda>r. cell r c) (rows df)) ws"
          "rows df' = map (\<lambda>(r, v). AList.update c v r) (zip (rows df) ws)" by blast
      then have "traverse f (map (\<lambda>r. cell r c) (rows df)) = Inr ws"
        by (simp add: traverse_Inr_iff)
      moreover have "df' = setitem c (b, ws) df"
        using a ws(2) True by (simp add: setitem_def)
      ultimately show "cast_column_frame c (cast_series b f) df = Inr df'"
        using True by (simp add: cast_column_frame_cells)
    qed
  qed
qed

lemma cast_column_frame_single:
  "cast_column_frame c (cast_series b f) d = Inr d' \<longleftrightarrow>
     set [c] \<subseteq> set (columns d) \<and> columns d' = columns d
     \<and> datetimes d' = set_dtype b c (datetimes d)
     \<and> list_all2 (\<lambda>r r'. coerce_cell c f r = Inr r') (rows d) (rows d')"
  by (simp add: cast_column_frame_Inr_iff)

lemma bind_cast_column_frame:
  assumes G: "\<And>d d'. G d = Inr d' \<longleftrightarrow>
       set S \<subseteq> set (columns d) \<and> columns d' = columns d \<and> datetimes d' = h (datetimes d)
       \<and> list_all2 (\<lambda>r r'. g r = Inr r') (rows d) (rows d')"
  shows "bind_err (cast_column_frame c (cast_series b f) df) G = Inr df' \<longleftrightarrow>
       set (c # S) \<subseteq> set (columns df) \<and> columns df' = columns df
       \<and> datetimes df' = h (set_dtype b c (datetimes df))
       \<and> list_all2 (\<lambda>r r'. bind_err (coerce_cell c f r) g = Inr r') (rows df) (rows df')"
proof
  assume "bind_err (cast_column_frame c (cast_series b f) df) G = Inr df'"
  then obtain d1 where d1: "cast_column_frame c (cast_series b f) df = Inr d1" "G d1 = Inr df'"
    by (auto simp: bind_err_Inr_iff)
  from d1(1) have a: "c \<in> set (columns df)" "columns d1 = columns df"
    "datetimes d1 = set_dtype b c (datetimes df)"
    "list_all2 (\<lambda>r r'. coerce_cell c f r = Inr r') (rows df) (rows d1)"
    by (simp_all add: cast_column_frame_Inr_iff)
  from d1(2) have b: "set S \<subseteq> set (columns d1)" "columns df' = columns d1"
    "datetimes df' = h (datetimes d1)"
    "list_all2 (\<lambda>r r'. g r = Inr r') (rows d1) (rows df')"
    by (simp_all add: G)
  from a(4) b(4)
  have "list_all2 ((\<lambda>r r'. coerce_cell c f r = Inr r') OO (\<lambda>r r'. g r = Inr r')) (rows df) (rows df')"
    unfolding list.rel_compp by (rule relcomppI)
  then have "list_all2 (\<lambda>r r'. bind_err (coerce_cell c f r) g = Inr r') (rows df) (rows df')"
    by (rule list_all2_mono) (auto simp: bind_err_Inr_iff)
  with a b show "set (c # S) \<subseteq> set (columns df) \<and> columns df' = columns df
       \<and> datetimes df' = h (set_dtype b c (datetimes df))
       \<and> list_all2 (\<lambda>r r'. bind_err (coerce_cell c f r) g = Inr r') (rows df) (rows df')"
    by simp
next
  assume h: "set (c # S) \<subseteq> set (columns df) \<and> columns df' = columns df
       \<and> datetimes df' = h (set_dtype b c (datetimes df))
       \<and> list_all2 (\<lambda>r r'. bind_err (coerce_cell c f r) g = Inr r') (rows df) (rows df')"
  then have "list_all2 ((\<lambda>r r'. coerce_cell c f r = Inr r') OO (\<lambda>r r'. g r = Inr r')) (rows df) (rows df')"
    by (auto elim!: list_all2_mono simp: bind_err_Inr_iff)
  then obtain ys where ys: "list_all2 (\<lambda>r r'. coerce_cell c f r = Inr r') (rows df) ys"
    "list_all2 (\<lambda>r r'. g r = Inr r') ys (rows df')"
    unfolding list.rel_compp by (auto elim: relcomppE)
  let ?d1 = "df\<lparr>datetimes := set_dtype b c (datetimes df), rows := ys\<rparr>"
  from h ys(1) have "cast_column_frame c (cast_series b f) df = Inr ?d1"
    by (simp add: cast_column_frame_Inr_iff)
  moreover from h ys(2) have "G ?d1 = Inr df'" by (simp add: G)
  ultimately show "bind_err (cast_column_frame c (cast_series b f) df) G = Inr df'" by simp
qed

lemma cast_frame_Inr_iff:
  "cast_frame pd df = Inr df' \<longleftrightarrow>
     set cast_columns \<subseteq> set (columns df) \<and> columns df' = columns df
     \<and> datetimes df' = cast_datetimes (datetimes df)
     \<and> list_all2 (\<lambda>r r'. coerce_row pd r = Inr r') (rows df) (rows df')"
  unfolding cast_frame_def coerce_row_def cast_datetimes_def
  by (subst bind_cast_column_frame [OF bind_cast_column_frame [OF bind_cast_column_frame
        [OF bind_cast_column_frame [OF bind_cast_column_frame [OF bind_cast_column_frame
        [OF bind_cast_column_frame [OF cast_column_frame_single]]]]]]])
     (auto simp: cast_columns_def)

lemma DATE_cast_datetimes: "DATE \<in> set (cast_datetimes cs)"
  by (simp add: cast_datetimes_def set_dtype_def)

lemma cell_update: "cell (AList.update c v r) c' = (if c' = c then v else cell r c')"
  by (simp add: cell_def update_conv')

lemma coerce_cell_other:
  "coerce_cell c f r = Inr r' \<Longrightarrow> c' \<noteq> c \<Longrightarrow> cell r' c' = cell r c'"
  by (auto simp: coerce_cell_def bind_err_Inr_iff cell_update)

lemma coerce_cell_same:
  "coerce_cell c f r = Inr r' \<Longrightarrow> f (cell r c) = Inr (cell r' c)"
  by (auto simp: coerce_cell_def bind_err_Inr_iff cell_update)

lemma coerce_row_steps:
  assumes "coerce_row pd r = Inr r'"
  obtains r1 r2 r3 r4 r5 r6 r7 where
    "coerce_cell DATE (to_datetime_cell pd) r = Inr r1"
    "coerce_cell RECONCILED (astype_bool pd) r1 = Inr r2"
    "coerce_cell INFLOW (astype_float pd) r2 = Inr r3"
    "coerce_cell OUTFLOW (astype_float pd) r3 = Inr r4"
    "coerce_cell AMOUNT (astype_float pd) r4 = Inr r5"
    "coerce_cell CAT (astype_category pd) r5 = Inr r6"
    "coerce_cell ACCOUNT (astype_category pd) r6 = Inr r7"
    "coerce_cell RECONCILED (astype_bool pd) r7 = Inr r'"
  using assms unfolding coerce_row_def bind_err_Inr_iff by blast

lemma coerce_row_other:
  assumes "coerce_row pd r = Inr r'" and "c \<notin> set cast_columns"
  shows "cell r' c = cell r c"
proof -
  from assms(1) obtain r1 r2 r3 r4 r5 r6 r7 where
    s: "coerce_cell DATE (to_datetime_cell pd) r = Inr r1"
       "coerce_cell RECONCILED (astype_bool pd) r1 = Inr r2"
       "coerce_cell INFLOW (astype_float pd) r2 = Inr r3"
       "coerce_cell OUTFLOW (astype_float pd) r3 = Inr r4"
       "coerce_cell AMOUNT (astype_float pd) r4 = Inr r5"
       "coerce_cell CAT (astype_category pd) r5 = Inr r6"
       "coerce_cell ACCOUNT (astype_category pd) r6 = Inr r7"
       "coerce_cell RECONCILED (astype_bool pd) r7 = Inr r'"
    by (rule coerce_row_steps)
  from assms(2) have n: "c \<noteq> DATE" "c \<noteq> RECONCILED" "c \<noteq> INFLOW" "c \<noteq> OUTFLOW"
    "c \<noteq> AMOUNT" "c \<noteq> CAT" "c \<noteq> ACCOUNT"
    by (auto simp: cast_columns_def)
  show ?thesis
    using s n by (simp add: coerce_cell_other)
qed

lemma coerce_row_coerced:
  assumes "coerce_row pd r = Inr r'"
  shows "coerced pd r r'"
proof -
  from assms(1) obtain r1 r2 r3 r4 r5 r6 r7 where
    s: "coerce_cell DATE (to_datetime_cell pd) r = Inr r1"
       "coerce_cell RECONCILED (astype_bool pd) r1 = Inr r2"
       "coerce_cell INFLOW (astype_float pd) r2 = Inr r3"
       "coerce_cell OUTFLOW (astype_float pd) r3 = Inr r4"
       "coerce_cell AMOUNT (astype_float pd) r4 = Inr r5"
       "coerce_cell CAT (astype_category pd) r5 = Inr r6"
       "coerce_cell ACCOUNT (astype_category pd) r6 = Inr r7"
       "coerce_cell RECONCILED (astype_bool pd) r7 = Inr r'"
    by (rule coerce_row_steps)
  note o = s [THEN coerce_cell_other]
  note e = s [THEN coerce_cell_same]
  have d: "to_datetime_cell pd (cell r DATE) = Inr (cell r' DATE)"
    using e(1) by (simp add: o)
  have i: "astype_float pd (cell r INFLOW) = Inr (cell r' INFLOW)"
    using e(3) by (simp add: o)
  have u: "astype_float pd (cell r OUTFLOW) = Inr (cell r' OUTFLOW)"
    using e(4) by (simp add: o)
  have a: "astype_float pd (cell r AMOUNT) = Inr (cell r' AMOUNT)"
    using e(5) by (simp add: o)
  have c: "astype_category pd (cell r CAT) = Inr (cell r' CAT)"
    using e(6) by (simp add: o)
  have cc: "astype_category pd (cell r ACCOUNT) = Inr (cell r' ACCOUNT)"
    using e(7) by (simp add: o)
  have b1: "astype_bool pd (cell r RECONCILED) = Inr (cell r2 RECONCILED)"
    using e(2) by (simp add: o)
  have b2: "astype_bool pd (cell r2 RECONCILED) = Inr (cell r' RECONCILED)"
    using e(8) by (simp add: o)
  have p: "cell r' PAYEE = cell r PAYEE" "cell r' MEMO = cell r MEMO"
    by (simp_all add: o)
  from b1 b2 have b: "\<exists>b. astype_bool pd (cell r RECONCILED) = Inr b
              \<and> astype_bool pd b = Inr (cell r' RECONCILED)" by blast
  from d i u a b c cc p show ?thesis unfolding coerced_def by simp
qed

lemma coerced_update_id:
  "coerced pd (AList.update ID v r) r' \<Longrightarrow> coerced pd r r'"
  by (simp add: coerced_def cell_update)

lemma to_datetime_cell_datetime: "to_datetime_cell pd v = Inr w \<Longrightarrow> is_datetime w"
  by (auto simp: to_datetime_cell_def bind_err_Inr_iff split: option.splits)

lemma coerced_datetime: "coerced pd r r' \<Longrightarrow> is_datetime (cell r' DATE)"
  using to_datetime_cell_datetime [of pd "cell r DATE" "cell r' DATE"]
  by (simp add: coerced_def)

lemma rows_with_uuids:
  "rows (with_uuids uuid df) =
     map (\<lambda>i. AList.update ID (VStr (uuid i)) (rows df ! i)) [0..<length (rows df)]"
  by (auto simp: with_uuids_def setitem_def intro!: nth_equalityI)

lemma columns_with_uuids:
  "ID \<in> set (columns (with_uuids uuid df))"
  "set (columns (with_uuids uuid df)) = insert ID (set (columns df))"
  by (auto simp: with_uuids_def setitem_def)

lemma set_union_columns: "set (union_columns css) = \<Union> (set ` set css)"
proof -
  have "set (fold (\<lambda>c acc. if c \<in> set acc then acc else acc @ [c]) cs acc) = set cs \<union> set acc"
    for cs acc :: "string list"
    by (induction cs arbitrary: acc) auto
  then show ?thesis by (simp add: union_columns_def)
qed

lemma table_ids_coerced:
  assumes "cast_frame pd (with_uuids uuid df) = Inr df2"
  shows "table_ids df2 = map (\<lambda>i. VStr (uuid i)) [0..<length (rows df)]"
proof -
  from assms have l: "list_all2 (\<lambda>r r'. coerce_row pd r = Inr r') (rows (with_uuids uuid df)) (rows df2)"
    by (simp add: cast_frame_Inr_iff)
  have id: "ID \<notin> set cast_columns" by (simp add: cast_columns_def)
  from l have len: "length (rows df2) = length (rows df)"
    by (auto dest: list_all2_lengthD simp: rows_with_uuids)
  show ?thesis
  proof (rule nth_equalityI)
    show "length (table_ids df2) = length (map (\<lambda>i. VStr (uuid i)) [0..<length (rows df)])"
      using len by (simp add: table_ids_def)
  next
    fix i assume "i < length (table_ids df2)"
    then have i: "i < length (rows df)" using len by (simp add: table_ids_def)
    with l have "coerce_row pd (rows (with_uuids uuid df) ! i) = Inr (rows df2 ! i)"
      by (auto dest: list_all2_nthD simp: rows_with_uuids)
    from coerce_row_other [OF this id] i len
    show "table_ids df2 ! i = map (\<lambda>i. VStr (uuid i)) [0..<length (rows df)] ! i"
      by (simp add: table_ids_def rows_with_uuids cell_update)
  qed
qed

lemma str_list_VStr: "str_list (map (\<lambda>i. VStr (f i)) xs) = map f xs"
  by (induction xs) auto

subsection \<open>The in-place statements on a frame object\<close>

lemma deref_assign: "deref (fst (assign df v st)) (snd (assign df v st)) = v"
  by (cases df) (simp_all add: assign_def deref_def)

lemma assign_assign: "assign (snd (assign df v st)) w (fst (assign df v st)) = assign df w st"
  by (cases df) (simp_all add: assign_def)

lemma assign_deref: "assign df (deref st df) st = (st, df)"
  by (cases df) (simp_all add: assign_def deref_def)

lemma assign_Frame: "assign (Frame f) v st = (st, Frame v)"
  by (simp add: assign_def)

lemma assign_SelfDb: "assign SelfDb v st = (st\<lparr>db := v\<rparr>, SelfDb)"
  by (simp add: assign_def)

lemma cast_column_mirror:
  "\<exists>d''. cast_column c f df st =
     (case cast_column_frame c f (deref st df) of
        Inl e \<Rightarrow> (Some e, assign df d'' st)
      | Inr d' \<Rightarrow> (None, assign df d' st))"
proof (cases "bind_err (getitem (deref st df) c) f")
  case (Inl e)
  then have "cast_column c f df st =
     (case cast_column_frame c f (deref st df) of
        Inl e \<Rightarrow> (Some e, assign df (deref st df) st)
      | Inr d' \<Rightarrow> (None, assign df d' st))"
    by (simp add: cast_column_def cast_column_frame_def assign_deref)
  then show ?thesis ..
next
  case (Inr s)
  then have "cast_column c f df st =
     (case cast_column_frame c f (deref st df) of
        Inl e \<Rightarrow> (Some e, assign df (deref st df) st)
      | Inr d' \<Rightarrow> (None, assign df d' st))"
    by (simp add: cast_column_def cast_column_frame_def)
  then show ?thesis ..
qed

lemma and_then_mirror:
  assumes G: "\<And>df st. \<exists>d''. G df st =
     (case g (deref st df) of
        Inl e \<Rightarrow> (Some e, assign df d'' st)
      | Inr d' \<Rightarrow> (None, assign df d' st))"
  shows "\<exists>d''. and_then (cast_column c f df st) G =
     (case bind_err (cast_column_frame c f (deref st df)) g of
        Inl e \<Rightarrow> (Some e, assign df d'' st)
      | Inr d' \<Rightarrow> (None, assign df d' st))"
proof (cases "cast_column_frame c f (deref st df)")
  case (Inl e)
  from cast_column_mirror [of c f df st] Inl obtain d''
    where "cast_column c f df st = (Some e, assign df d'' st)" by auto
  with Inl have "and_then (cast_column c f df st) G =
     (case bind_err (cast_column_frame c f (deref st df)) g of
        Inl e \<Rightarrow> (Some e, assign df d'' st)
      | Inr d' \<Rightarrow> (None, assign df d' st))"
    by (cases "assign df d'' st") (simp add: and_then_def)
  then show ?thesis ..
next
  case (Inr d1)
  obtain st1 df1 where a: "assign df d1 st = (st1, df1)" by (cases "assign df d1 st")
  from cast_column_mirror [of c f df st] Inr a
  have c1: "cast_column c f df st = (None, st1, df1)" by auto
  have d1: "deref st1 df1 = d1" using deref_assign [of df d1 st] a by simp
  have aa: "assign df1 x st1 = assign df x st" for x
    using assign_assign [of df d1 st x] a by simp
  from G [of df1 st1] obtain d'' where "G df1 st1 =
     (case g (deref st1 df1) of
        Inl e \<Rightarrow> (Some e, assign df1 d'' st1)
      | Inr d' \<Rightarrow> (None, assign df1 d' st1))" ..
  with c1 Inr d1 have "and_then (cast_column c f df st) G =
     (case bind_err (cast_column_frame c f (deref st df)) g of
        Inl e \<Rightarrow> (Some e, assign df d'' st)
      | Inr d' \<Rightarrow> (None, assign df d' st))"
    by (simp add: and_then_def aa split: sum.splits)
  then show ?thesis ..
qed

lemma apply_dtypes_mirror:
  "\<exists>d''. apply_dtypes pd df st =
     (case cast_frame pd (deref st df) of
        Inl e \<Rightarrow> (Some e, assign df d'' st)
      | Inr d' \<Rightarrow> (None, assign df d' st))"
  unfolding apply_dtypes_def cast_frame_def
  by (rule and_then_mirror)+ (rule cast_column_mirror)

lemma pd_concat_appended: "pd_concat [d, f] = Inr (appended d f)"
  by (simp add: pd_concat_def appended_def)

lemma insert_data_eq:
  assumes c: "cast_frame pd (with_uuids uuid (deref st df)) = Inr d2"
  shows "insert_data pd uuid df st =
           save_db_from_uuid (map uuid [0..<length (rows (deref st df))])
             ((fst (assign df d2 st))\<lparr>db := appended (db (fst (assign df d2 st))) d2\<rparr>)"
proof -
  let ?w = "with_uuids uuid (deref st df)"
  obtain st1 df1 where a1: "assign df ?w st = (st1, df1)" by (cases "assign df ?w st")
  have d1: "deref st1 df1 = ?w" using deref_assign [of df ?w st] a1 by simp
  have aa: "assign df1 x st1 = assign df x st" for x
    using assign_assign [of df ?w st x] a1 by simp
  from apply_dtypes_mirror [of pd df1 st1] obtain d'' where "apply_dtypes pd df1 st1 =
     (case cast_frame pd (deref st1 df1) of
        Inl e \<Rightarrow> (Some e, assign df1 d'' st1)
      | Inr d' \<Rightarrow> (None, assign df1 d' st1))" ..
  with d1 c aa have ap: "apply_dtypes pd df1 st1 = (None, assign df d2 st)" by simp
  obtain st2 df2 where a2: "assign df d2 st = (st2, df2)" by (cases "assign df d2 st")
  have d2: "deref st2 df2 = d2" using deref_assign [of df d2 st] a2 by simp
  from c have "columns d2 = columns ?w" by (simp add: cast_frame_Inr_iff)
  then have "ID \<in> set (columns d2)" by (simp add: columns_with_uuids)
  then have g: "getitem d2 ID = Inr (ID \<in> set (datetimes d2), table_ids d2)"
    by (simp add: getitem_def table_ids_def)
  have au: "add_uuids uuid df st = (st1, df1)"
    using a1 by (simp add: add_uuids_def with_uuids_def)
  show ?thesis
    by (simp add: insert_data_def au ap a2 d2 pd_concat_appended g table_ids_coerced [OF c]
        str_list_VStr)
qed

lemma insert_data_Inl:
  assumes c: "cast_frame pd (with_uuids uuid (deref st df)) = Inl e"
  shows "\<exists>d''. insert_data pd uuid df st = (Some e, fst (assign df d'' st))"
proof -
  let ?w = "with_uuids uuid (deref st df)"
  obtain st1 df1 where a1: "assign df ?w st = (st1, df1)" by (cases "assign df ?w st")
  have d1: "deref st1 df1 = ?w" using deref_assign [of df ?w st] a1 by simp
  have aa: "assign df1 x st1 = assign df x st" for x
    using assign_assign [of df ?w st x] a1 by simp
  from apply_dtypes_mirror [of pd df1 st1] obtain d'' where "apply_dtypes pd df1 st1 =
     (case cast_frame pd (deref st1 df1) of
        Inl e \<Rightarrow> (Some e, assign df1 d'' st1)
      | Inr d' \<Rightarrow> (None, assign df1 d' st1))" ..
  with d1 c aa have ap: "apply_dtypes pd df1 st1 = (Some e, assign df d'' st)" by simp
  have au: "add_uuids uuid df st = (st1, df1)"
    using a1 by (simp add: add_uuids_def with_uuids_def)
  have "insert_data pd uuid df st = (Some e, fst (assign df d'' st))"
    by (cases "assign df d'' st") (simp add: insert_data_def au ap)
  then show ?thesis ..
qed

lemma insert_data_Frame:
  "cast_frame pd (with_uuids uuid f) = Inr d2 \<Longrightarrow>
   insert_data pd uuid (Frame f) st =
     save_db_from_uuid (map uuid [0..<length (rows f)]) (st\<lparr>db := appended (db st) d2\<rparr>)"
  using insert_data_eq [of pd uuid st "Frame f" d2] by (simp add: deref_def assign_Frame)

lemma insert_data_Frame_Inl:
  "cast_frame pd (with_uuids uuid f) = Inl e \<Longrightarrow> insert_data pd uuid (Frame f) st = (Some e, st)"
  using insert_data_Inl [of pd uuid st "Frame f" e] by (auto simp: deref_def assign_Frame)

lemma insert_data_SelfDb:
  "cast_frame pd (with_uuids uuid (db st)) = Inr d2 \<Longrightarrow>
   insert_data pd uuid SelfDb st =
     save_db_from_uuid (map uuid [0..<length (rows (db st))]) (st\<lparr>db := appended d2 d2\<rparr>)"
  using insert_data_eq [of pd uuid st SelfDb d2] by (simp add: deref_def assign_SelfDb)

lemma insert_record_eq:
  "insert_record record st =
     save_db_from_uuid [record_id record] (st\<lparr>db := appended (db st) (to_df record)\<rparr>)"
  by (simp add: insert_record_def pd_concat_appended)

section \<open>The files decompose the table\<close>



lemma find_fresh_append:
  "\<forall>x\<in>set xs. \<not> P x \<Longrightarrow> find P (xs @ ys) = find P ys"
  by (induction xs) auto

lemma find_distinct_nth:
  "distinct (map f ys) \<Longrightarrow> i < length ys \<Longrightarrow> find (\<lambda>y. f y = f (ys ! i)) ys = Some (ys ! i)"
proof (induction ys arbitrary: i)
  case Nil
  then show ?case by simp
next
  case (Cons y ys)
  show ?case
  proof (cases i)
    case 0
    then show ?thesis by simp
  next
    case (Suc j)
    with Cons.prems have "f y \<noteq> f (ys ! j)" by (auto simp: image_iff)
    with Cons Suc show ?thesis by simp
  qed
qed

lemma months_loop_Inr:
  "months_loop df us = Inr ms \<Longrightarrow> ms = map (first_month df) us"
proof (induction us arbitrary: ms)
  case Nil
  then show ?case by simp
next
  case (Cons u us)
  from Cons.prems obtain ym ms' where
    s: "bind_err (lookup_date df u) year_month = Inr ym" "months_loop df us = Inr ms'"
       "ms = ym # ms'"
    by (auto split: sum.splits)
  from s(1) obtain dv where dv: "lookup_date df u = Inr dv" "year_month dv = Inr ym"
    by (auto simp: bind_err_Inr_iff)
  from dv(1) obtain r where r: "find (\<lambda>r. cell r ID = VStr u) (rows df) = Some r" "dv = cell r DATE"
    by (auto simp: lookup_date_eq split: if_splits option.splits)
  from dv(2) r have "ym = first_month df u"
    by (auto simp: year_month_def first_month_def split: if_splits)
  with Cons.IH [OF s(2)] s(3) show ?case by simp
qed



lemma save_plan_keys:
  "DATE \<in> set (columns df) \<Longrightarrow> DATE \<in> set (datetimes df) \<Longrightarrow> \<forall>k\<in>set ks. ok (fst k) \<Longrightarrow>
   save_plan df ok (map some_key ks) = (None, ks)"
  by (induction ks) (auto simp: some_key_def)





lemma find_appended:
  assumes ids: "map (\<lambda>r. cell r ID) news = map VStr us"
    and dist: "distinct us"
    and fresh: "\<forall>u\<in>set us. VStr u \<notin> set (table_ids df)"
    and d: "rows d = rows df @ news"
    and i: "i < length news"
  shows "find (\<lambda>r. cell r ID = VStr (us ! i)) (rows d) = Some (news ! i)"
proof -
  from ids have len: "length us = length news" by (metis length_map)
  from ids i have idi: "cell (news ! i) ID = VStr (us ! i)"
    by (metis nth_map len)
  have "distinct (map VStr us)" using dist by (simp add: distinct_map inj_on_def)
  with ids have dn: "distinct (map (\<lambda>r. cell r ID) news)" by simp
  from i len have "us ! i \<in> set us" by simp
  with fresh have "VStr (us ! i) \<notin> (\<lambda>r. cell r ID) ` set (rows df)"
    by (simp add: table_ids_def)
  then have "\<forall>x\<in>set (rows df). \<not> cell x ID = VStr (us ! i)"
    by (metis imageI)
  then have "find (\<lambda>r. cell r ID = VStr (us ! i)) (rows d) = find (\<lambda>r. cell r ID = VStr (us ! i)) news"
    unfolding d by (rule find_fresh_append)
  also have "\<dots> = Some (news ! i)"
    using find_distinct_nth [OF dn i] idi by simp
  finally show ?thesis .
qed

lemma first_month_appended:
  assumes ids: "map (\<lambda>r. cell r ID) news = map VStr us"
    and dist: "distinct us"
    and fresh: "\<forall>u\<in>set us. VStr u \<notin> set (table_ids df)"
    and d: "rows d = rows df @ news"
    and i: "i < length news"
  shows "first_month d (us ! i) =
           (year_of (cell (news ! i) DATE), month_of (cell (news ! i) DATE))"
  using find_appended [OF assms] by (simp add: first_month_def)






lemma db_save_db: "db (snd (save_db ms st)) = db st"
  by (simp add: save_db_plan [of ms])

lemma db_save_db_from_uuid: "db (snd (save_db_from_uuid us st)) = db st"
  by (simp add: save_db_from_uuid_def db_save_db split: sum.splits)

lemma set_concat_datetimes:
  "set (concat_datetimes fs) =
     {c \<in> \<Union> (set ` columns ` set fs). \<forall>f\<in>set fs. c \<in> set (datetimes f) \<or> c \<notin> set (columns f)}"
  by (auto simp: concat_datetimes_def set_union_columns list_all_iff)

lemma columns_appended: "set (columns (appended d f)) = set (columns d) \<union> set (columns f)"
  by (simp add: appended_def set_union_columns)

lemma DATE_appended:
  "DATE \<in> set (datetimes d) \<or> DATE \<notin> set (columns d) \<Longrightarrow> DATE \<in> set (columns f) \<Longrightarrow>
   DATE \<in> set (datetimes f) \<Longrightarrow> DATE \<in> set (datetimes (appended d f))"
  by (auto simp: appended_def set_concat_datetimes)

lemma has_folder_db: "has_folder (st\<lparr>db := d\<rparr>) = has_folder st"
  by (simp add: has_folder_def fun_eq_iff)

lemma remdups_map_inj: "inj f \<Longrightarrow> remdups (map f xs) = map f (remdups xs)"
  by (induction xs) (auto simp: inj_image_mem_iff)

lemma inj_some_key: "inj some_key"
  by (auto simp: inj_on_def some_key_def prod_eq_iff)

lemma timestamp_month_key:
  "is_timestamp (cell r DATE) \<Longrightarrow>
   (year_of (cell r DATE), month_of (cell r DATE)) = some_key (month_key r)"
  by (cases "cell r DATE") (auto simp: month_key_def some_key_def)

lemma timestamp_datetime: "is_timestamp v \<Longrightarrow> is_datetime v"
  by (cases v) auto

lemma save_db_from_uuid_appended:
  assumes ids: "map (\<lambda>r. cell r ID) news = map VStr us"
    and dist: "distinct us"
    and fresh: "\<forall>u\<in>set us. VStr u \<notin> set (table_ids (db st))"
    and d: "rows d = rows (db st) @ news"
    and cols: "ID \<in> set (columns d)" "DATE \<in> set (columns d)" "DATE \<in> set (datetimes d)"
    and filed: "list_all (filed_row st) news"
  shows "save_db_from_uuid us (st\<lparr>db := d\<rparr>) =
           (None, st\<lparr>db := d, disk := write_all d (remdups (map month_key news)) (disk st)\<rparr>)"
proof -
  from ids have len: "length us = length news" by (metis length_map)
  have ts: "is_timestamp (cell (news ! i) DATE)" if "i < length news" for i
    using filed that by (simp add: list_all_length filed_row_def)
  have r: "list_all (reached d) us"
    unfolding list_all_length
  proof (intro allI impI)
    fix i assume "i < length us"
    then have i: "i < length news" using len by simp
    from find_appended [OF ids dist fresh d i] timestamp_datetime [OF ts [OF i]]
    show "reached d (us ! i)" by (simp add: reached_def first_row_def)
  qed
  have fm: "map (first_month d) us = map some_key (map month_key news)"
  proof (rule nth_equalityI)
    show "length (map (first_month d) us) = length (map some_key (map month_key news))"
      using len by simp
  next
    fix i assume "i < length (map (first_month d) us)"
    then have i: "i < length news" using len by simp
    from timestamp_month_key [OF ts [OF i]] first_month_appended [OF ids dist fresh d i] i len
    show "map (first_month d) us ! i = map some_key (map month_key news) ! i" by simp
  qed
  have "remdups (map (first_month d) us) = map some_key (remdups (map month_key news))"
    unfolding fm by (rule remdups_map_inj [OF inj_some_key])
  then have g: "get_months_from_uuid us (st\<lparr>db := d\<rparr>) = Inr (map some_key (remdups (map month_key news)))"
    using months_loop_reached [OF cols(1,2) r] by (simp add: get_months_from_uuid_def)
  have "\<forall>k\<in>set (remdups (map month_key news)). has_folder st (fst k)"
    using filed by (auto simp: list_all_iff filed_row_def)
  from save_plan_keys [OF cols(2,3) this]
  show ?thesis
    by (simp add: save_db_from_uuid_def g save_db_plan has_folder_db)
qed





lemma without_ids_loc:
  "loc df (map ((\<lambda>v. v \<notin> VStr ` set ids) \<circ> (\<lambda>r. cell r ID)) (rows df)) = without_ids df ids"
  by (simp add: loc_comp without_ids_def)

lemma table_ids_without: "table_ids (without_ids df ids) = filter (\<lambda>v. v \<notin> VStr ` set ids) (table_ids df)"
  by (simp add: table_ids_def without_ids_def filter_map comp_def)

lemma delete_data_cases:
  "delete_data ids st = (e, st') \<Longrightarrow>
     (e \<noteq> None \<and> st' = st) \<or>
     (\<exists>ms. months_loop (db st) ids = Inr ms \<and> ID \<in> set (columns (db st))
        \<and> save_db (remdups ms) (st\<lparr>db := without_ids (db st) ids\<rparr>) = (e, st'))"
  by (auto simp: delete_data_def get_months_from_uuid_def getitem_def without_ids_loc
      bind_err_Inr_iff split: sum.splits if_splits)



section \<open>Sequences of operations\<close>

lemma distinct_appended_ids:
  assumes U: "distinct (table_ids (db st))"
    and dist: "distinct us"
    and fresh: "\<forall>u\<in>set us. VStr u \<notin> set (table_ids (db st))"
    and ids: "table_ids f = map VStr us"
  shows "distinct (table_ids (appended (db st) f))"
proof -
  have "distinct (map VStr us)" using dist by (simp add: distinct_map inj_on_def)
  with U fresh have "distinct (table_ids (db st) @ map VStr us)" by auto
  with ids show ?thesis by (simp add: table_ids_def appended_def)
qed

lemma fresh_uuids:
  assumes "fresh_op st (InsertData uuid (Frame f))"
  shows "distinct (map uuid [0..<length (rows f)])"
    and "\<forall>u\<in>set (map uuid [0..<length (rows f)]). VStr u \<notin> set (table_ids (db st))"
  using assms by (auto simp: list_all_iff)

lemma exec_distinct_ids:
  assumes U: "distinct (table_ids (db st))" and F: "fresh_op st opn"
  shows "distinct (table_ids (db (snd (exec pd opn st))))"
proof (cases opn)
  case (InsertData uuid df)
  with F obtain f where df: "df = Frame f" by (cases df) auto
  show ?thesis
  proof (cases "cast_frame pd (with_uuids uuid f)")
    case (Inl e)
    with U show ?thesis by (simp add: exec_def InsertData df insert_data_Frame_Inl)
  next
    case (Inr f2)
    let ?n = "length (rows f)"
    note f = fresh_uuids [OF F [unfolded InsertData df]]
    have "table_ids f2 = map VStr (map uuid [0..<?n])"
      using table_ids_coerced [OF Inr] by simp
    from distinct_appended_ids [OF U f this] show ?thesis
      by (simp add: exec_def InsertData df insert_data_Frame [OF Inr] db_save_db_from_uuid)
  qed
next
  case (InsertRecord rcd)
  with F have "table_ids (to_df rcd) = map VStr [record_id rcd]"
    "\<forall>u\<in>set [record_id rcd]. VStr u \<notin> set (table_ids (db st))" by simp_all
  from distinct_appended_ids [OF U _ this(2,1)] show ?thesis
    by (simp add: exec_def InsertRecord insert_record_eq db_save_db_from_uuid)
next
  case (DeleteData ids)
  obtain e st' where r: "delete_data ids st = (e, st')" by (cases "delete_data ids st")
  from delete_data_cases [OF r] have "db st' = db st \<or> db st' = without_ids (db st) ids"
  proof
    assume "e \<noteq> None \<and> st' = st" then show ?thesis by simp
  next
    assume "\<exists>ms. months_loop (db st) ids = Inr ms \<and> ID \<in> set (columns (db st))
        \<and> save_db (remdups ms) (st\<lparr>db := without_ids (db st) ids\<rparr>) = (e, st')"
    then obtain ms where "save_db (remdups ms) (st\<lparr>db := without_ids (db st) ids\<rparr>) = (e, st')"
      by blast
    with db_save_db [of "remdups ms" "st\<lparr>db := without_ids (db st) ids\<rparr>"] show ?thesis by simp
  qed
  with U r show ?thesis
    by (auto simp: exec_def DeleteData table_ids_without)
qed

lemma run_distinct_ids:
  "distinct (table_ids (db st)) \<Longrightarrow> fresh_run pd ops st \<Longrightarrow>
   distinct (table_ids (db (run pd ops st)))"
proof (induction ops arbitrary: st)
  case Nil
  then show ?case by simp
next
  case (Cons opn ops)
  from Cons.prems have F: "fresh_op st opn" and R: "fresh_run pd ops (snd (exec pd opn st))"
    by simp_all
  from Cons.IH [OF exec_distinct_ids [OF Cons.prems(1) F] R] show ?case by simp
qed




lemma insert_data_table_ids:
  "insert_data pd uuid (Frame f) st = (e, st') \<Longrightarrow>
   (e \<noteq> None \<and> st' = st)
   \<or> table_ids (db st') = table_ids (db st) @ map (\<lambda>i. VStr (uuid i)) [0..<length (rows f)]"
proof (cases "cast_frame pd (with_uuids uuid f)")
  case (Inl err)
  assume "insert_data pd uuid (Frame f) st = (e, st')"
  with Inl show ?thesis by (auto simp: insert_data_Frame_Inl)
next
  case (Inr f2)
  assume "insert_data pd uuid (Frame f) st = (e, st')"
  with db_save_db_from_uuid [of "map uuid [0..<length (rows f)]" "st\<lparr>db := appended (db st) f2\<rparr>"]
  have "db st' = appended (db st) f2"
    by (simp add: insert_data_Frame [OF Inr])
  with table_ids_coerced [OF Inr] show ?thesis
    by (simp add: table_ids_def appended_def)
qed


text \<open>
  C5 as amended: when no two rows of the table share an id, after every sequence of
  \<^verbatim>\<open>insert_data\<close>, \<^verbatim>\<open>insert_record\<close> and \<^verbatim>\<open>delete_data\<close> calls that bring fresh ids (the
  frame given to \<^verbatim>\<open>insert_data\<close> is not the table object, the ids \<^verbatim>\<open>create_uuid\<close> returns
  are new and differ from each other; a record given to \<^verbatim>\<open>insert_record\<close> is one row
  carrying the id of the record, which the table does not hold), whether the calls raise
  or not, no two rows of the table share an id; and an \<^verbatim>\<open>insert_data\<close> on a frame of the
  caller's own either raises and leaves the store as it was, or appends rows whose ids
  are the generated ones, whatever id column the caller's frame had.
\<close>

theorem fresh_ids_stay_unique:
  assumes "distinct (table_ids (db st))" and "fresh_run pd ops st"
  shows "distinct (table_ids (db (run pd ops st)))
         \<and> (\<forall>uuid f e st'. insert_data pd uuid (Frame f) st = (e, st') \<longrightarrow>
               (e \<noteq> None \<and> st' = st)
               \<or> table_ids (db st') =
                   table_ids (db st) @ map (\<lambda>i. VStr (uuid i)) [0..<length (rows f)])"
  using run_distinct_ids [OF assms] insert_data_table_ids by blast

section \<open>The result of an insertion\<close>

lemma cast_frame_result:
  assumes "set cast_columns \<subseteq> set (columns f)"
    and "list_all2 (\<lambda>r r'. coerce_row pd r = Inr r') (rows (with_uuids uuid f)) rs"
  shows "cast_frame pd (with_uuids uuid f) = Inr (cast_result uuid f rs)"
  using assms by (auto simp: cast_frame_Inr_iff cast_result_def columns_with_uuids)

lemma cast_result_columns:
  assumes "set cast_columns \<subseteq> set (columns f)"
  shows "ID \<in> set (columns (cast_result uuid f rs))"
    and "DATE \<in> set (columns (cast_result uuid f rs))"
    and "DATE \<in> set (datetimes (cast_result uuid f rs))"
  using assms
  by (auto simp: cast_result_def columns_with_uuids cast_columns_def DATE_cast_datetimes)

lemma insert_data_result:
  assumes cols: "set cast_columns \<subseteq> set (columns f)"
    and rs: "list_all2 (\<lambda>r r'. coerce_row pd r = Inr r') (rows (with_uuids uuid f)) rs"
    and T: "DATE \<in> set (datetimes (db st)) \<or> DATE \<notin> set (columns (db st))"
    and filed: "list_all (filed_row st) rs"
    and fresh: "fresh_op st (InsertData uuid (Frame f))"
  shows "insert_data pd uuid (Frame f) st =
           (None,
            st\<lparr>db := appended (db st) (cast_result uuid f rs),
               disk := write_all (appended (db st) (cast_result uuid f rs))
                         (remdups (map month_key rs)) (disk st)\<rparr>)"
proof -
  let ?f2 = "cast_result uuid f rs"
  let ?d = "appended (db st) ?f2"
  let ?n = "length (rows f)"
  note c = cast_frame_result [OF cols rs]
  note f = fresh_uuids [OF fresh]
  have ids: "map (\<lambda>r. cell r ID) rs = map VStr (map uuid [0..<?n])"
    using table_ids_coerced [OF c] by (simp add: table_ids_def cast_result_def)
  have d: "rows ?d = rows (db st) @ rs" by (simp add: appended_def cast_result_def)
  note cc = cast_result_columns [OF cols, of uuid rs]
  have c1: "ID \<in> set (columns ?d)" "DATE \<in> set (columns ?d)"
    using cc by (simp_all add: columns_appended)
  have t: "DATE \<in> set (datetimes ?d)" using T cc(2,3) by (rule DATE_appended)
  from save_db_from_uuid_appended [OF ids f d c1 t filed]
  show ?thesis by (simp add: insert_data_Frame [OF c])
qed

section \<open>Insert, then look up by id\<close>

lemma filter_distinct_nth:
  "distinct (map f ys) \<Longrightarrow> i < length ys \<Longrightarrow> filter (\<lambda>y. f y = f (ys ! i)) ys = [ys ! i]"
proof (induction ys arbitrary: i)
  case Nil
  then show ?case by simp
next
  case (Cons y ys)
  show ?case
  proof (cases i)
    case 0
    from Cons.prems have "\<forall>x\<in>set ys. f x \<noteq> f y" by (auto simp: image_iff)
    then have "filter (\<lambda>x. f x = f y) ys = []" by (simp add: filter_empty_conv)
    with 0 show ?thesis by simp
  next
    case (Suc j)
    with Cons.prems have "f y \<noteq> f (ys ! j)" by (auto simp: image_iff)
    with Cons Suc show ?thesis by simp
  qed
qed

lemma get_data_by_id_eq:
  "ID \<in> set (columns (db st)) \<Longrightarrow>
   get_data_by_id us st =
     Inr (Frame ((db st)\<lparr>rows := filter (\<lambda>r. cell r ID \<in> VStr ` set us) (rows (db st))\<rparr>))"
  by (simp add: get_data_by_id_def getitem_def loc_comp)

text \<open>
  C2 as amended: when a frame of the caller's own (not the table object) has the columns
  that are cast, the rows of the frame with their new ids cast without error to the rows
  \<open>rs\<close>, and the generated ids are fresh, then after \<^verbatim>\<open>insert_data\<close>, whether it raised while
  saving or not, \<^verbatim>\<open>get_data_by_id\<close> for the id generated for the record at position \<open>i\<close>
  returns exactly one row: that record with its id, after the casts (date parsed, inflow,
  outflow and amount as float, reconciled as boolean, cat and account as categorical).
\<close>

theorem insert_data_get_data_by_id:
  assumes "set cast_columns \<subseteq> set (columns f)"
    and "list_all2 (\<lambda>r r'. coerce_row pd r = Inr r') (rows (with_uuids uuid f)) rs"
    and "fresh_op st (InsertData uuid (Frame f))"
    and "i < length (rows f)"
  shows "\<exists>e st'. insert_data pd uuid (Frame f) st = (e, st')
           \<and> get_data_by_id [uuid i] st' = Inr (Frame ((db st')\<lparr>rows := [rs ! i]\<rparr>))
           \<and> coerce_row pd (AList.update ID (VStr (uuid i)) (rows f ! i)) = Inr (rs ! i)
           \<and> coerced pd (rows f ! i) (rs ! i)
           \<and> cell (rs ! i) ID = VStr (uuid i)"
proof -
  let ?f2 = "cast_result uuid f rs"
  let ?d = "appended (db st) ?f2"
  let ?n = "length (rows f)"
  let ?us = "map uuid [0..<?n]"
  note c = cast_frame_result [OF assms(1,2)]
  obtain e st' where r: "save_db_from_uuid ?us (st\<lparr>db := ?d\<rparr>) = (e, st')"
    by (cases "save_db_from_uuid ?us (st\<lparr>db := ?d\<rparr>)")
  then have ins: "insert_data pd uuid (Frame f) st = (e, st')"
    by (simp add: insert_data_Frame [OF c])
  from r db_save_db_from_uuid [of ?us "st\<lparr>db := ?d\<rparr>"] have d: "db st' = ?d" by simp
  have ids: "map (\<lambda>r. cell r ID) rs = map (\<lambda>i. VStr (uuid i)) [0..<?n]"
    using table_ids_coerced [OF c] by (simp add: table_ids_def cast_result_def)
  from ids have "length (map (\<lambda>r. cell r ID) rs) = length (map (\<lambda>i. VStr (uuid i)) [0..<?n])"
    by (rule arg_cong)
  then have len: "length rs = ?n" by simp
  from ids have "map (\<lambda>r. cell r ID) rs ! i = map (\<lambda>i. VStr (uuid i)) [0..<?n] ! i"
    by (rule arg_cong)
  with assms(4) len have idi: "cell (rs ! i) ID = VStr (uuid i)" by simp
  note f = fresh_uuids [OF assms(3)]
  have "distinct (map (\<lambda>i. VStr (uuid i)) [0..<?n])"
    using f(1) by (simp add: distinct_map inj_on_def)
  with ids have dn: "distinct (map (\<lambda>r. cell r ID) rs)" by simp
  have new: "filter (\<lambda>r. cell r ID = VStr (uuid i)) rs = [rs ! i]"
    using filter_distinct_nth [OF dn, of i] assms(4) len idi by simp
  from f(2) assms(4) have "VStr (uuid i) \<notin> (\<lambda>r. cell r ID) ` set (rows (db st))"
    by (simp add: table_ids_def)
  then have "\<forall>r\<in>set (rows (db st)). cell r ID \<noteq> VStr (uuid i)"
    by (metis imageI)
  then have old: "filter (\<lambda>r. cell r ID = VStr (uuid i)) (rows (db st)) = []"
    by (simp add: filter_empty_conv)
  have "ID \<in> set (columns (db st'))"
    unfolding d using cast_result_columns(1) [OF assms(1)] by (simp add: columns_appended)
  from get_data_by_id_eq [OF this, of "[uuid i]"] old new
  have g: "get_data_by_id [uuid i] st' = Inr (Frame ((db st')\<lparr>rows := [rs ! i]\<rparr>))"
    by (simp add: d appended_def cast_result_def)
  from assms(2) assms(4) have "coerce_row pd (rows (with_uuids uuid f) ! i) = Inr (rs ! i)"
    by (auto dest: list_all2_nthD simp: rows_with_uuids)
  with assms(4) have cr: "coerce_row pd (AList.update ID (VStr (uuid i)) (rows f ! i)) = Inr (rs ! i)"
    by (simp add: rows_with_uuids)
  have cd: "coerced pd (rows f ! i) (rs ! i)"
    by (rule coerced_update_id [OF coerce_row_coerced [OF cr]])
  show ?thesis
    by (intro exI conjI) (rule ins, rule g, rule cr, rule cd, rule idi)
qed

section \<open>Deleting rows\<close>

lemma filed_ids_months:
  assumes c: "ID \<in> set (columns (db st))" "DATE \<in> set (columns (db st))"
    and f: "filed_ids st ids"
  shows "get_months_from_uuid ids st = Inr (map some_key (ids_keys (db st) ids))"
    and "\<forall>k\<in>set (ids_keys (db st) ids). has_folder st (fst k)"
proof -
  have one: "reached (db st) u \<and> first_month (db st) u =
        some_key (case first_row (db st) u of None \<Rightarrow> (0, 0) | Some r \<Rightarrow> month_key r)
      \<and> has_folder st (fst (case first_row (db st) u of None \<Rightarrow> (0, 0) | Some r \<Rightarrow> month_key r))"
    if "u \<in> set ids" for u
  proof -
    from f that obtain r where r: "first_row (db st) u = Some r" "filed_row st r"
      by (auto simp: filed_ids_def list_all_iff split: option.splits)
    from r(2) have ts: "is_timestamp (cell r DATE)" and hf: "has_folder st (fst (month_key r))"
      by (simp_all add: filed_row_def)
    from r(1) timestamp_month_key [OF ts] timestamp_datetime [OF ts] hf show ?thesis
      by (simp add: reached_def first_month_def first_row_def)
  qed
  then have "list_all (reached (db st)) ids" by (simp add: list_all_iff)
  from months_loop_reached [OF c this]
  have "get_months_from_uuid ids st = Inr (remdups (map (first_month (db st)) ids))"
    by (simp add: get_months_from_uuid_def)
  moreover have "map (first_month (db st)) ids =
      map some_key (map (\<lambda>u. case first_row (db st) u of None \<Rightarrow> (0, 0) | Some r \<Rightarrow> month_key r) ids)"
    using one by simp
  ultimately show "get_months_from_uuid ids st = Inr (map some_key (ids_keys (db st) ids))"
    by (simp add: ids_keys_def remdups_map_inj [OF inj_some_key] del: map_map)
  show "\<forall>k\<in>set (ids_keys (db st) ids). has_folder st (fst k)"
    using one by (auto simp: ids_keys_def)
qed

lemma delete_data_filed:
  assumes c: "ID \<in> set (columns (db st))" "DATE \<in> set (columns (db st))"
    and t: "DATE \<in> set (datetimes (db st))"
    and f: "filed_ids st ids"
  shows "delete_data ids st =
           (None, st\<lparr>db := without_ids (db st) ids,
                     disk := write_all (without_ids (db st) ids) (ids_keys (db st) ids)
                               (disk st)\<rparr>)"
proof -
  let ?d = "without_ids (db st) ids"
  note m = filed_ids_months [OF c f]
  from c(2) t have "DATE \<in> set (columns ?d)" "DATE \<in> set (datetimes ?d)"
    by (simp_all add: without_ids_def)
  from save_plan_keys [OF this m(2)] c(1) show ?thesis
    by (simp add: delete_data_def m(1) getitem_def without_ids_loc save_db_plan has_folder_db)
qed

lemma delete_data_eq:
  "ID \<in> set (columns (db st)) \<Longrightarrow> months_loop (db st) ids = Inr ms \<Longrightarrow>
   delete_data ids st = save_db (remdups ms) (st\<lparr>db := without_ids (db st) ids\<rparr>)"
  by (simp add: delete_data_def get_months_from_uuid_def getitem_def without_ids_loc)

lemma get_months_distinct: "get_months_from_uuid ids st = Inr ms \<Longrightarrow> distinct ms"
  by (auto simp: get_months_from_uuid_def bind_err_Inr_iff)

lemma distinct_singleton: "distinct xs \<Longrightarrow> set xs = {a} \<Longrightarrow> xs = [a]"
proof (cases xs)
  case Nil
  assume "set xs = {a}"
  with Nil show ?thesis by simp
next
  case (Cons x ys)
  assume "distinct xs" "set xs = {a}"
  with Cons have "x = a" "a \<notin> set ys" "set ys \<subseteq> {a}" by auto
  then have "ys = []" by (cases ys) auto
  with Cons \<open>x = a\<close> show ?thesis by simp
qed


text \<open>
  C3 as stated fails. On a table that holds a row N whose date is NaT, deleting the id N,
  which is in the table, removes the row and then fails with ValueError; on a table whose
  date column is of dtype object, deleting the id X removes the row and then fails with
  AttributeError: in both cases no file is rewritten. And on the table of an empty root,
  deleting no id at all fails with KeyError.
\<close>

theorem delete_data_removes_then_fails:
  "VStr ''N'' \<in> set (table_ids (db store_nat))
   \<and> delete_data [''N''] store_nat = (Some ValueError, store_nat\<lparr>db := schema_frame [row_x]\<rparr>)
   \<and> VStr ''X'' \<in> set (table_ids (db store_object))
   \<and> delete_data [''X''] store_object =
       (Some AttributeError,
        store_object\<lparr>db := \<lparr>columns = get_db_col_vals, datetimes = [], rows = []\<rparr>\<rparr>)
   \<and> map_of (disk (snd (delete_data [''X''] store_object))) (2022, 1)
       = Some \<lparr>columns = get_db_col_vals, datetimes = [], rows = [row_x]\<rparr>
   \<and> delete_data [] store_empty = (Some KeyError, store_empty)"
proof -
  have c: "ID \<in> set (columns (db store_nat))" "ID \<in> set (columns (db store_object))"
    by (simp_all add: store_nat_def store_object_def ex_defs)
  have mn: "months_loop (db store_nat) [''N''] = Inr [(None, None)]"
    by (simp add: lookup_date_eq year_month_def store_nat_def ex_defs)
  have wn: "without_ids (db store_nat) [''N''] = schema_frame [row_x]"
    by (simp add: without_ids_def store_nat_def ex_defs)
  have sn: "save_db [(None, None)] (store_nat\<lparr>db := schema_frame [row_x]\<rparr>)
            = (Some ValueError, store_nat\<lparr>db := schema_frame [row_x]\<rparr>)"
    by (simp add: save_db_plan write_all_def ex_defs)
  have n: "delete_data [''N''] store_nat = (Some ValueError, store_nat\<lparr>db := schema_frame [row_x]\<rparr>)"
    using delete_data_eq [OF c(1) mn] by (simp add: wn sn del: save_db.simps)
  have mx: "months_loop (db store_object) [''X''] = Inr [(Some 2022, Some 1)]"
    by (simp add: lookup_date_eq year_month_def store_object_def ex_defs)
  have wx: "without_ids (db store_object) [''X'']
            = \<lparr>columns = get_db_col_vals, datetimes = [], rows = []\<rparr>"
    by (simp add: without_ids_def store_object_def ex_defs)
  have sx: "save_db [(Some 2022, Some 1)]
              (store_object\<lparr>db := \<lparr>columns = get_db_col_vals, datetimes = [], rows = []\<rparr>\<rparr>)
            = (Some AttributeError,
               store_object\<lparr>db := \<lparr>columns = get_db_col_vals, datetimes = [], rows = []\<rparr>\<rparr>)"
    by (simp add: save_db_plan write_all_def get_db_col_vals_def)
  have x: "delete_data [''X''] store_object =
       (Some AttributeError,
        store_object\<lparr>db := \<lparr>columns = get_db_col_vals, datetimes = [], rows = []\<rparr>\<rparr>)"
    using delete_data_eq [OF c(2) mx] by (simp add: wx sx del: save_db.simps)
  have e: "delete_data [] store_empty = (Some KeyError, store_empty)"
    by (simp add: delete_data_def get_months_from_uuid_def getitem_def store_empty_def
        empty_frame_def)
  have i: "VStr ''N'' \<in> set (table_ids (db store_nat))"
    "VStr ''X'' \<in> set (table_ids (db store_object))"
    by (simp_all add: table_ids_def store_nat_def store_object_def ex_defs)
  from n x e i show ?thesis by (simp add: store_object_def)
qed

text \<open>
  C3 as amended: on a table that has the column \<^verbatim>\<open>id\<close> and a column \<^verbatim>\<open>date\<close> of dtype
  datetime64, for ids that are all in the table, the first row of each having a timestamp
  as its date and the folder of its year existing, \<^verbatim>\<open>delete_data\<close> takes the partitions to
  rewrite from the first matching rows of the ids in the table before the removal, keeps in
  the table exactly the rows whose id is not in the list, writes for each of those
  partitions the rows the table has left for it (no rows when the partition is emptied),
  and leaves every other file as it was.
\<close>

theorem delete_data_rewrites_partitions:
  assumes "ID \<in> set (columns (db st))" and "DATE \<in> set (columns (db st))"
    and "DATE \<in> set (datetimes (db st))"
    and "filed_ids st uuid_list"
  shows "\<exists>ks. get_months_from_uuid uuid_list st = Inr (map some_key ks)
           \<and> set (map some_key ks) = first_month (db st) ` set uuid_list
           \<and> delete_data uuid_list st =
               (None, st\<lparr>db := without_ids (db st) uuid_list,
                         disk := write_all (without_ids (db st) uuid_list) ks (disk st)\<rparr>)
           \<and> (\<forall>k. map_of (write_all (without_ids (db st) uuid_list) ks (disk st)) k =
                    (if k \<in> set ks then Some (month_frame (without_ids (db st) uuid_list) k)
                     else map_of (disk st) k))"
proof -
  let ?ks = "ids_keys (db st) uuid_list"
  note m = filed_ids_months(1) [OF assms(1,2,4)]
  from m obtain ms where "months_loop (db st) uuid_list = Inr ms" "map some_key ?ks = remdups ms"
    by (auto simp: get_months_from_uuid_def bind_err_Inr_iff)
  with months_loop_Inr [of "db st" uuid_list ms]
  have s: "set (map some_key ?ks) = first_month (db st) ` set uuid_list" by simp
  note d = delete_data_filed [OF assms]
  show ?thesis
    by (intro exI conjI allI) (rule m, rule s, rule d, rule map_of_write_all)
qed

text \<open>C3 as amended, on the table with the rows X and Y: deleting X empties the file of January 2022.\<close>

theorem delete_data_rewrites_partitions_witness:
  "ID \<in> set (columns (db store_xy)) \<and> DATE \<in> set (columns (db store_xy))
   \<and> DATE \<in> set (datetimes (db store_xy))
   \<and> filed_ids store_xy [''X'']
   \<and> get_months_from_uuid [''X''] store_xy = Inr (map some_key [(2022, 1)])
   \<and> delete_data [''X''] store_xy =
       (None, \<lparr>db = schema_frame [row_y],
               disk = [((2022, 1), schema_frame []), ((2023, 5), schema_frame [row_y])],
               folders = [2022, 2023]\<rparr>)"
proof -
  have a: "ID \<in> set (columns (db store_xy))" "DATE \<in> set (columns (db store_xy))"
    "DATE \<in> set (datetimes (db store_xy))"
    by (simp_all add: ex_defs)
  have b: "filed_ids store_xy [''X'']"
    by (simp add: filed_ids_def first_row_def filed_row_def month_key_def has_folder_def ex_defs)
  have f: "first_month (db store_xy) ''X'' = (Some 2022, Some 1)"
    by (simp add: first_month_def ex_defs)
  have w: "without_ids (db store_xy) [''X''] = schema_frame [row_y]"
    by (simp add: without_ids_def ex_defs)
  have d: "write_all (schema_frame [row_y]) [(2022, 1)] (disk store_xy)
           = [((2022, 1), schema_frame []), ((2023, 5), schema_frame [row_y])]"
    by (simp add: write_all_def month_frame_def in_month_def ex_defs)
  from delete_data_rewrites_partitions [OF a b] obtain ks
    where ks: "get_months_from_uuid [''X''] store_xy = Inr (map some_key ks)"
      "set (map some_key ks) = first_month (db store_xy) ` set [''X'']"
      "delete_data [''X''] store_xy =
         (None, store_xy\<lparr>db := without_ids (db store_xy) [''X''],
                 disk := write_all (without_ids (db store_xy) [''X'']) ks (disk store_xy)\<rparr>)"
    by blast
  from ks(1) have "distinct (map some_key ks)" by (rule get_months_distinct)
  moreover from ks(2) f have "set (map some_key ks) = {some_key (2022, 1)}"
    by (simp add: some_key_def)
  ultimately have "map some_key ks = map some_key [(2022, 1)]"
    using distinct_singleton [of "map some_key ks" "some_key (2022, 1)"] by simp
  then have k: "ks = [(2022, 1)]" using inj_some_key by (simp only: inj_map_eq_map)
  from ks(1,3) a b show ?thesis
    unfolding k w d by (simp add: store_xy_def)
qed

lemmas data_defs = raw_frame_def raw_row_def get_mandatory_cols_def
  get_non_mandatory_cols_def uuid_ab_def store_empty_def record_y_def
  record_x_may_def store_x_def store_xy_def schema_frame_def get_db_col_vals_def row_x_def
  row_y_def mk_row_def frame_ab_def cast_row_def rows_ab_def frame_mandatory_def

section \<open>A record with the mandatory columns only\<close>

text \<open>
  C4 as stated fails: a frame with the columns date, payee and amount only makes
  \<^verbatim>\<open>_apply_dtypes\<close> fail with KeyError at the column \<^verbatim>\<open>reconciled\<close>, although the folder of
  2023 exists; nothing is inserted and no file is written.
\<close>

theorem insert_data_mandatory_only_fails:
  "has_folder store_xy 2023
   \<and> insert_data typed_cells uuid_ab (Frame frame_mandatory) store_xy = (Some KeyError, store_xy)
   \<and> map_of (disk (snd (insert_data typed_cells uuid_ab (Frame frame_mandatory) store_xy)))
        (2023, 3) = None"
proof -
  have w: "with_uuids uuid_ab frame_mandatory =
      \<lparr>columns = [DATE, PAYEE, AMOUNT, ID], datetimes = [],
       rows = [[(DATE, VDate 2023 3 15), (PAYEE, VStr ''Store''), (AMOUNT, VFloat (85 / 2)),
                (ID, VStr ''A'')]]\<rparr>"
    by (simp add: with_uuids_def setitem_def set_dtype_def data_defs)
  have "cast_frame typed_cells (with_uuids uuid_ab frame_mandatory) = Inl KeyError"
    unfolding w
    by (simp add: cast_frame_def cast_column_frame_cells setitem_def set_dtype_def cell_def
        to_datetime_cell_def typed_cells_def)
  then have "insert_data typed_cells uuid_ab (Frame frame_mandatory) store_xy
               = (Some KeyError, store_xy)"
    by (rule insert_data_Frame_Inl)
  then show ?thesis by (simp add: store_xy_def has_folder_def)
qed

text \<open>
  C4 as amended: when the caller has filled the other columns with the defaults of the
  registry, the casts of pandas map the values of the record as expected, the date column
  of the table (if it has one) is of dtype datetime64, the folder of 2023 exists and the
  generated id is not in the table, \<^verbatim>\<open>insert_data\<close> succeeds and writes the file of
  (2023, 3) with the rows the table had for that month followed by the new row (so
  exactly one row when the table had none): cat and memo empty, account missing, inflow
  and outflow 0.0, reconciled false, amount 42.5, and the generated id. Every other file
  is left as it was.
\<close>

theorem insert_data_backfilled_record:
  assumes "to_datetime pd date = Inr (Some (2023, 3, 15))"
    and "astype_bool pd (VBool False) = Inr (VBool False)"
    and "astype_float pd (VInt 0) = Inr (VFloat 0)"
    and "astype_float pd (VFloat (85 / 2)) = Inr (VFloat (85 / 2))"
    and "astype_category pd (VStr '''') = Inr (VStr '''')"
    and "astype_category pd VNone = Inr VNaN"
    and "DATE \<in> set (datetimes (db st)) \<or> DATE \<notin> set (columns (db st))"
    and "has_folder st 2023"
    and "VStr (uuid 0) \<notin> set (table_ids (db st))"
  shows "\<exists>st' f. insert_data pd uuid (Frame (raw_frame [raw_row date ''Store'' (85 / 2)])) st
                   = (None, st')
           \<and> map_of (disk st') (2023, 3) = Some f
           \<and> rows f = filter (in_month (2023, 3)) (rows (db st))
                        @ [cast_row (VDate 2023 3 15) ''Store'' (85 / 2) (uuid 0)]
           \<and> rows (db st') = rows (db st) @ [cast_row (VDate 2023 3 15) ''Store'' (85 / 2) (uuid 0)]
           \<and> (\<forall>k. k \<noteq> (2023, 3) \<longrightarrow> map_of (disk st') k = map_of (disk st) k)"
proof -
  let ?df = "raw_frame [raw_row date ''Store'' (85 / 2)]"
  let ?r = "cast_row (VDate 2023 3 15) ''Store'' (85 / 2) (uuid 0)"
  let ?d = "appended (db st) (cast_result uuid ?df [?r])"
  have cols: "set cast_columns \<subseteq> set (columns ?df)"
    by (simp add: cast_columns_def raw_frame_def get_mandatory_cols_def get_non_mandatory_cols_def)
  have r1: "rows (with_uuids uuid ?df) = [raw_row date ''Store'' (85 / 2) @ [(ID, VStr (uuid 0))]]"
    by (simp add: with_uuids_def setitem_def raw_frame_def raw_row_def get_non_mandatory_cols_def)
  have c: "coerce_row pd (raw_row date ''Store'' (85 / 2) @ [(ID, VStr (uuid 0))]) = Inr ?r"
    using assms(1-6)
    by (simp add: coerce_row_def coerce_cell_def cell_def raw_row_def get_non_mandatory_cols_def
        cast_row_def to_datetime_cell_def)
  have rs: "list_all2 (\<lambda>r r'. coerce_row pd r = Inr r') (rows (with_uuids uuid ?df)) [?r]"
    by (simp add: r1 c)
  have tr: "is_timestamp (cell ?r DATE)" "month_key ?r = (2023, 3)" "in_month (2023, 3) ?r"
    by (simp_all add: cast_row_def cell_def month_key_def in_month_def)
  from tr(1,2) assms(8) have filed: "list_all (filed_row st) [?r]"
    by (simp add: filed_row_def)
  have len: "length (rows ?df) = Suc 0" by (simp add: raw_frame_def)
  from assms(9) have fresh: "fresh_op st (InsertData uuid (Frame ?df))"
    by (simp add: len)
  note res = insert_data_result [OF cols rs assms(7) filed fresh]
  let ?st' = "st\<lparr>db := ?d, disk := write_all ?d (remdups (map month_key [?r])) (disk st)\<rparr>"
  have m: "map_of (disk ?st') (2023, 3) = Some (month_frame ?d (2023, 3))"
    by (simp add: map_of_write_all tr(2))
  have f: "rows (month_frame ?d (2023, 3)) = filter (in_month (2023, 3)) (rows (db st)) @ [?r]"
    using tr(3) by (simp add: month_frame_def appended_def cast_result_def)
  have dbr: "rows (db ?st') = rows (db st) @ [?r]"
    by (simp add: appended_def cast_result_def)
  have o: "\<forall>k. k \<noteq> (2023, 3) \<longrightarrow> map_of (disk ?st') k = map_of (disk st) k"
    by (simp add: map_of_write_all tr(2))
  show ?thesis
    by (intro exI conjI) (rule res, rule m, rule f, rule dbr, rule o)
qed

text \<open>
  C4 as amended, for the table with the rows X and Y, where the folder of 2023 holds the
  file of May: the file of March is new and holds the one row.
\<close>

theorem insert_data_backfilled_record_witness:
  "to_datetime typed_cells (VDate 2023 3 15) = Inr (Some (2023, 3, 15))
   \<and> astype_bool typed_cells (VBool False) = Inr (VBool False)
   \<and> astype_float typed_cells (VInt 0) = Inr (VFloat 0)
   \<and> astype_float typed_cells (VFloat (85 / 2)) = Inr (VFloat (85 / 2))
   \<and> astype_category typed_cells (VStr '''') = Inr (VStr '''')
   \<and> astype_category typed_cells VNone = Inr VNaN
   \<and> (DATE \<in> set (datetimes (db store_xy)) \<or> DATE \<notin> set (columns (db store_xy)))
   \<and> has_folder store_xy 2023
   \<and> VStr (uuid_ab 0) \<notin> set (table_ids (db store_xy))
   \<and> map_of (disk store_xy) (2023, 3) = None
   \<and> filter (in_month (2023, 3)) (rows (db store_xy)) = []
   \<and> (\<exists>st' f. insert_data typed_cells uuid_ab
                   (Frame (raw_frame [raw_row (VDate 2023 3 15) ''Store'' (85 / 2)])) store_xy
                 = (None, st')
           \<and> map_of (disk st') (2023, 3) = Some f
           \<and> rows f = [cast_row (VDate 2023 3 15) ''Store'' (85 / 2) (uuid_ab 0)]
           \<and> rows (db st') = rows (db store_xy)
                              @ [cast_row (VDate 2023 3 15) ''Store'' (85 / 2) (uuid_ab 0)])"
proof -
  have a: "to_datetime typed_cells (VDate 2023 3 15) = Inr (Some (2023, 3, 15))"
    "astype_bool typed_cells (VBool False) = Inr (VBool False)"
    "astype_float typed_cells (VInt 0) = Inr (VFloat 0)"
    "astype_float typed_cells (VFloat (85 / 2)) = Inr (VFloat (85 / 2))"
    "astype_category typed_cells (VStr '''') = Inr (VStr '''')"
    "astype_category typed_cells VNone = Inr VNaN"
    by (simp_all add: typed_cells_def)
  have b: "DATE \<in> set (datetimes (db store_xy)) \<or> DATE \<notin> set (columns (db store_xy))"
    by (simp add: data_defs)
  have h: "has_folder store_xy 2023" by (simp add: has_folder_def store_xy_def)
  have c: "VStr (uuid_ab 0) \<notin> set (table_ids (db store_xy))"
    by (simp add: table_ids_def cell_def data_defs)
  have n: "map_of (disk store_xy) (2023, 3) = None" by (simp add: store_xy_def)
  have e: "filter (in_month (2023, 3)) (rows (db store_xy)) = []"
    by (simp add: in_month_def cell_def data_defs)
  note t = insert_data_backfilled_record
    [where pd = typed_cells and st = store_xy and uuid = uuid_ab and date = "VDate 2023 3 15",
     OF a b h c]
  from t e have t': "\<exists>st' f. insert_data typed_cells uuid_ab
                   (Frame (raw_frame [raw_row (VDate 2023 3 15) ''Store'' (85 / 2)])) store_xy
                 = (None, st')
           \<and> map_of (disk st') (2023, 3) = Some f
           \<and> rows f = [cast_row (VDate 2023 3 15) ''Store'' (85 / 2) (uuid_ab 0)]
           \<and> rows (db st') = rows (db store_xy)
                              @ [cast_row (VDate 2023 3 15) ''Store'' (85 / 2) (uuid_ab 0)]"
    by auto
  show ?thesis
    by (intro conjI) (rule a(1), rule a(2), rule a(3), rule a(4), rule a(5), rule a(6),
        rule b, rule h, rule c, rule n, rule e, rule t')
qed

section \<open>Examples of insertions\<close>

lemma rows_with_uuids_ab:
  "rows (with_uuids uuid_ab frame_ab) =
     [raw_row (VDate 2023 3 15) ''Store'' (85 / 2) @ [(ID, VStr ''A'')],
      raw_row (VDate 2022 1 10) ''Grocer'' 12 @ [(ID, VStr ''B'')]]"
  by (simp add: with_uuids_def setitem_def data_defs)

lemma coerce_raw_row:
  "coerce_row typed_cells (raw_row (VDate y m d) payee amount @ [(ID, VStr u)])
     = Inr (cast_row (VDate y m d) payee amount u)"
  by (simp add: coerce_row_def coerce_cell_def cell_def typed_cells_def to_datetime_cell_def
      data_defs)

lemma cast_columns_frame_ab: "set cast_columns \<subseteq> set (columns frame_ab)"
  by (simp add: cast_columns_def data_defs)

lemma coerce_frame_ab:
  "list_all2 (\<lambda>r r'. coerce_row typed_cells r = Inr r') (rows (with_uuids uuid_ab frame_ab)) rows_ab"
  by (simp add: rows_with_uuids_ab coerce_raw_row rows_ab_def)

lemma fresh_xy_ab: "fresh_op store_xy (InsertData uuid_ab (Frame frame_ab))"
  by (simp add: table_ids_def cell_def data_defs)

lemma filed_xy_ab: "list_all (filed_row store_xy) rows_ab"
  by (simp add: filed_row_def month_key_def has_folder_def cell_def data_defs)

lemma typed_xy: "DATE \<in> set (datetimes (db store_xy)) \<or> DATE \<notin> set (columns (db store_xy))"
  by (simp add: data_defs)

lemma insert_ab:
  "insert_data typed_cells uuid_ab (Frame frame_ab) store_xy =
     (None, store_xy\<lparr>db := table_ab,
                     disk := write_all table_ab [(2023, 3), (2022, 1)] (disk store_xy)\<rparr>)"
proof -
  have "remdups (map month_key rows_ab) = [(2023, 3), (2022, 1)]"
    by (simp add: month_key_def cell_def rows_ab_def cast_row_def)
  with insert_data_result [OF cast_columns_frame_ab coerce_frame_ab typed_xy filed_xy_ab
      fresh_xy_ab]
  show ?thesis by (simp add: table_ab_def)
qed

text \<open>C2 as amended, for a frame of two records inserted into the table with the rows X and Y.\<close>

theorem insert_data_get_data_by_id_witness:
  "set cast_columns \<subseteq> set (columns frame_ab)
   \<and> list_all2 (\<lambda>r r'. coerce_row typed_cells r = Inr r') (rows (with_uuids uuid_ab frame_ab)) rows_ab
   \<and> fresh_op store_xy (InsertData uuid_ab (Frame frame_ab))
   \<and> 1 < length (rows frame_ab)
   \<and> fst (insert_data typed_cells uuid_ab (Frame frame_ab) store_xy) = None
   \<and> rows_ab ! 1 = cast_row (VDate 2022 1 10) ''Grocer'' 12 ''B''
   \<and> (\<exists>e st'. insert_data typed_cells uuid_ab (Frame frame_ab) store_xy = (e, st')
         \<and> get_data_by_id [uuid_ab 1] st' = Inr (Frame ((db st')\<lparr>rows := [rows_ab ! 1]\<rparr>))
         \<and> coerce_row typed_cells (AList.update ID (VStr (uuid_ab 1)) (rows frame_ab ! 1))
             = Inr (rows_ab ! 1)
         \<and> coerced typed_cells (rows frame_ab ! 1) (rows_ab ! 1)
         \<and> cell (rows_ab ! 1) ID = VStr (uuid_ab 1))"
proof -
  have l: "1 < length (rows frame_ab)" by (simp add: data_defs)
  have s: "fst (insert_data typed_cells uuid_ab (Frame frame_ab) store_xy) = None"
    by (simp add: insert_ab)
  have r: "rows_ab ! 1 = cast_row (VDate 2022 1 10) ''Grocer'' 12 ''B''"
    by (simp add: rows_ab_def)
  note t = insert_data_get_data_by_id
    [OF cast_columns_frame_ab coerce_frame_ab fresh_xy_ab l]
  show ?thesis
    by (intro conjI) (rule cast_columns_frame_ab, rule coerce_frame_ab, rule fresh_xy_ab,
        rule l, rule s, rule r, rule t)
qed

subsection \<open>Inserting the table object itself\<close>

lemma union_columns_schema: "union_columns [get_db_col_vals, get_db_col_vals] = get_db_col_vals"
  "union_columns [get_db_col_vals] = get_db_col_vals"
  by (simp_all add: union_columns_def get_db_col_vals_def)

lemma appended_schema: "appended (schema_frame rs) (schema_frame rs') = schema_frame (rs @ rs')"
  by (simp add: appended_def schema_frame_def union_columns_schema concat_datetimes_def)
     (simp add: get_db_col_vals_def)

lemma coerce_mk_row:
  "coerce_row typed_cells (mk_row u (VDate y m d) payee account amount)
     = Inr (mk_row u (VDate y m d) payee account amount)"
  by (simp add: coerce_row_def coerce_cell_def cell_def typed_cells_def to_datetime_cell_def
      mk_row_def)

lemma cast_table_xy:
  "cast_frame typed_cells (with_uuids uuid_ab (db store_xy)) =
     Inr (schema_frame [mk_row ''A'' (VDate 2022 1 10) ''Grocer'' ''A'' 12,
                        mk_row ''B'' (VDate 2023 5 2) ''Baker'' ''B'' 7])"
proof -
  have r: "rows (with_uuids uuid_ab (db store_xy)) =
      [mk_row ''A'' (VDate 2022 1 10) ''Grocer'' ''A'' 12,
       mk_row ''B'' (VDate 2023 5 2) ''Baker'' ''B'' 7]"
    by (simp add: with_uuids_def setitem_def data_defs)
  have c: "columns (with_uuids uuid_ab (db store_xy)) = get_db_col_vals"
    "datetimes (with_uuids uuid_ab (db store_xy)) = [DATE]"
    by (simp_all add: with_uuids_def setitem_def set_dtype_def store_xy_def schema_frame_def
        get_db_col_vals_def)
  show ?thesis
    unfolding cast_frame_Inr_iff r c
    by (simp add: coerce_mk_row schema_frame_def cast_datetimes_def set_dtype_def
        cast_columns_def get_db_col_vals_def)
qed

lemma insert_table_itself:
  "insert_data typed_cells uuid_ab SelfDb store_xy =
     (None,
      \<lparr>db = schema_frame [mk_row ''A'' (VDate 2022 1 10) ''Grocer'' ''A'' 12,
                          mk_row ''B'' (VDate 2023 5 2) ''Baker'' ''B'' 7,
                          mk_row ''A'' (VDate 2022 1 10) ''Grocer'' ''A'' 12,
                          mk_row ''B'' (VDate 2023 5 2) ''Baker'' ''B'' 7],
       disk = [((2022, 1), schema_frame [mk_row ''A'' (VDate 2022 1 10) ''Grocer'' ''A'' 12,
                                         mk_row ''A'' (VDate 2022 1 10) ''Grocer'' ''A'' 12]),
               ((2023, 5), schema_frame [mk_row ''B'' (VDate 2023 5 2) ''Baker'' ''B'' 7,
                                         mk_row ''B'' (VDate 2023 5 2) ''Baker'' ''B'' 7])],
       folders = [2022, 2023]\<rparr>)"
proof -
  let ?a = "mk_row ''A'' (VDate 2022 1 10) ''Grocer'' ''A'' 12"
  let ?b = "mk_row ''B'' (VDate 2023 5 2) ''Baker'' ''B'' 7"
  let ?d = "schema_frame [?a, ?b, ?a, ?b]"
  have n: "map uuid_ab [0..<length (rows (db store_xy))] = [''A'', ''B'']"
    by (simp add: store_xy_def schema_frame_def uuid_ab_def upt_rec)
  have dd: "datetime_dates ?d"
    by (simp add: datetime_dates_def schema_frame_def get_db_col_vals_def mk_row_def cell_def)
  have p: "list_all (\<lambda>u. VStr u \<in> set (table_ids ?d)) [''A'', ''B'']"
    by (simp add: table_ids_def schema_frame_def mk_row_def cell_def)
  have f: "first_month ?d ''A'' = (Some 2022, Some 1)" "first_month ?d ''B'' = (Some 2023, Some 5)"
    by (simp_all add: first_month_def schema_frame_def mk_row_def cell_def)
  have g: "get_months_from_uuid [''A'', ''B''] (store_xy\<lparr>db := ?d\<rparr>)
           = Inr (map some_key [(2022, 1), (2023, 5)])"
    using get_months_typed [of "store_xy\<lparr>db := ?d\<rparr>" "[''A'', ''B'']"] dd p f
    by (simp add: some_key_def)
  have sp: "save_plan ?d (has_folder store_xy) [some_key (2022, 1), some_key (2023, 5)]
            = (None, [(2022, 1), (2023, 5)])"
    using save_plan_keys [of ?d "[(2022, 1), (2023, 5)]" "has_folder store_xy"]
    by (simp add: schema_frame_def get_db_col_vals_def has_folder_def store_xy_def)
  have w: "write_all ?d [(2022, 1), (2023, 5)] (disk store_xy)
           = [((2022, 1), schema_frame [?a, ?a]), ((2023, 5), schema_frame [?b, ?b])]"
    by (simp add: write_all_def month_frame_def in_month_def schema_frame_def store_xy_def
        mk_row_def cell_def)
  have "save_db_from_uuid [''A'', ''B''] (store_xy\<lparr>db := ?d\<rparr>)
        = (None, store_xy\<lparr>db := ?d, disk := write_all ?d [(2022, 1), (2023, 5)] (disk store_xy)\<rparr>)"
    by (simp add: save_db_from_uuid_def g save_db_plan has_folder_db sp del: save_plan.simps)
  then show ?thesis
    unfolding insert_data_SelfDb [OF cast_table_xy] n appended_schema w
    by (simp add: store_xy_def)
qed

text \<open>
  C2 as stated fails: with an empty mapping \<^verbatim>\<open>get_data_by_col_val\<close> returns the table
  object; \<^verbatim>\<open>insert_data\<close> of that object, whose records have all schema columns and cast
  without error, overwrites the ids of the table in place and appends the table to itself,
  so that \<^verbatim>\<open>get_data_by_id\<close> for the id generated for the first record returns two rows.
\<close>

theorem insert_data_table_object_two_rows:
  "get_data_by_col_val typed_cells [] store_xy = Inr SelfDb
   \<and> set get_db_col_vals \<subseteq> set (columns (deref store_xy SelfDb))
   \<and> fst (insert_data typed_cells uuid_ab SelfDb store_xy) = None
   \<and> get_data_by_id [uuid_ab 0] (snd (insert_data typed_cells uuid_ab SelfDb store_xy))
       = Inr (Frame (schema_frame [mk_row ''A'' (VDate 2022 1 10) ''Grocer'' ''A'' 12,
                                   mk_row ''A'' (VDate 2022 1 10) ''Grocer'' ''A'' 12]))"
proof -
  let ?st = "snd (insert_data typed_cells uuid_ab SelfDb store_xy)"
  have d: "db ?st = schema_frame [mk_row ''A'' (VDate 2022 1 10) ''Grocer'' ''A'' 12,
                                  mk_row ''B'' (VDate 2023 5 2) ''Baker'' ''B'' 7,
                                  mk_row ''A'' (VDate 2022 1 10) ''Grocer'' ''A'' 12,
                                  mk_row ''B'' (VDate 2023 5 2) ''Baker'' ''B'' 7]"
    by (simp add: insert_table_itself)
  have "ID \<in> set (columns (db ?st))"
    unfolding d by (simp add: schema_frame_def get_db_col_vals_def)
  from get_data_by_id_eq [OF this, of "[uuid_ab 0]"]
  have g: "get_data_by_id [uuid_ab 0] ?st
       = Inr (Frame (schema_frame [mk_row ''A'' (VDate 2022 1 10) ''Grocer'' ''A'' 12,
                                   mk_row ''A'' (VDate 2022 1 10) ''Grocer'' ''A'' 12]))"
    unfolding d by (simp add: schema_frame_def uuid_ab_def mk_row_def cell_def)
  have c: "set get_db_col_vals \<subseteq> set (columns (deref store_xy SelfDb))"
    by (simp add: deref_def store_xy_def schema_frame_def)
  have e: "get_data_by_col_val typed_cells [] store_xy = Inr SelfDb"
    by (simp add: get_data_by_col_val_def)
  have s: "fst (insert_data typed_cells uuid_ab SelfDb store_xy) = None"
    by (simp add: insert_table_itself)
  from e c s g show ?thesis by simp
qed

subsection \<open>Insertions that leave a row outside the files\<close>

lemma rows_appended: "rows (appended d f) = rows d @ rows f"
  by (simp add: appended_def)

lemma insert_record_result:
  assumes dd: "datetime_dates (appended (db st) (to_df rcd))"
    and dt: "DATE \<in> set (datetimes (appended (db st) (to_df rcd)))"
    and p: "VStr (record_id rcd) \<in> set (table_ids (appended (db st) (to_df rcd)))"
    and fm: "first_month (appended (db st) (to_df rcd)) (record_id rcd) = some_key k"
    and hf: "has_folder st (fst k)"
  shows "insert_record rcd st =
           (None, st\<lparr>db := appended (db st) (to_df rcd),
                     disk := write_all (appended (db st) (to_df rcd)) [k] (disk st)\<rparr>)"
proof -
  let ?d = "appended (db st) (to_df rcd)"
  have g: "get_months_from_uuid [record_id rcd] (st\<lparr>db := ?d\<rparr>) = Inr [some_key k]"
    using get_months_typed [of "st\<lparr>db := ?d\<rparr>" "[record_id rcd]"] dd p fm by simp
  from dd have "DATE \<in> set (columns ?d)" by (simp add: datetime_dates_def)
  from save_plan_keys [OF this dt, of "[k]" "has_folder st"] hf
  have "save_plan ?d (has_folder st) [some_key k] = (None, [k])" by simp
  then show ?thesis
    by (simp add: insert_record_eq save_db_from_uuid_def g save_db_plan has_folder_db
        del: save_plan.simps)
qed


lemma insert_record_y_xy:
  "insert_record record_y store_xy =
     (None,
      \<lparr>db = schema_frame [row_x, row_y, row_y],
       disk = [((2022, 1), schema_frame [row_x]), ((2023, 5), schema_frame [row_y, row_y])],
       folders = [2022, 2023]\<rparr>)"
proof -
  let ?d = "appended (db store_xy) (to_df record_y)"
  have d: "?d = schema_frame [row_x, row_y, row_y]"
    by (simp add: store_xy_def record_y_def appended_schema)
  have dd: "datetime_dates ?d"
    unfolding d by (simp add: datetime_dates_def cell_def data_defs)
  have dt: "DATE \<in> set (datetimes ?d)" unfolding d by (simp add: schema_frame_def)
  have p: "VStr (record_id record_y) \<in> set (table_ids ?d)"
    unfolding d by (simp add: table_ids_def cell_def data_defs)
  have fm: "first_month ?d (record_id record_y) = some_key (2023, 5)"
    unfolding d by (simp add: first_month_def some_key_def cell_def data_defs)
  have hf: "has_folder store_xy (fst (2023 :: int, 5 :: int))"
    by (simp add: has_folder_def store_xy_def)
  have w: "write_all (schema_frame [row_x, row_y, row_y]) [(2023, 5)] (disk store_xy)
             = [((2022, 1), schema_frame [row_x]), ((2023, 5), schema_frame [row_y, row_y])]"
    by (simp add: write_all_def month_frame_def in_month_def cell_def data_defs)
  from insert_record_result [OF dd dt p fm hf] show ?thesis
    unfolding d by (simp add: w) (simp add: store_xy_def)
qed





section \<open>Examples of sequences\<close>





lemma distinct_ids_examples:
  "distinct (table_ids (db store_x))" "distinct (table_ids (db store_xy))"
  "distinct (table_ids (db store_min))"
  by (simp_all add: table_ids_def cell_def store_min_def data_defs)





lemma admissible_ops_example:
  "admissible typed_cells ops_example store_xy" "fresh_run typed_cells ops_example store_xy"
  using fresh_xy_ab filed_xy_ab
  by (simp_all add: ops_example_def cast_frame_result [OF cast_columns_frame_ab coerce_frame_ab]
      cast_result_def)


text \<open>
  C5 as stated fails. \<^verbatim>\<open>insert_record\<close> stores the id the caller's record carries:
  inserting a record whose id Y is already in the table succeeds and leaves two rows with
  the id Y. And \<^verbatim>\<open>insert_data\<close> of the table object itself, with two new ids, overwrites
  the ids of the rows of the table and appends the table to itself: each new id is on two
  rows.
\<close>

theorem inserts_share_ids:
  "distinct (table_ids (db store_xy))
   \<and> fst (insert_record record_y store_xy) = None
   \<and> table_ids (db (snd (insert_record record_y store_xy)))
       = [VStr ''X'', VStr ''Y'', VStr ''Y'']
   \<and> \<not> distinct (table_ids (db (snd (insert_record record_y store_xy))))
   \<and> get_data_by_col_val typed_cells [] store_xy = Inr SelfDb
   \<and> uuid_ab 0 \<noteq> uuid_ab 1
   \<and> VStr (uuid_ab 0) \<notin> set (table_ids (db store_xy))
   \<and> VStr (uuid_ab 1) \<notin> set (table_ids (db store_xy))
   \<and> fst (insert_data typed_cells uuid_ab SelfDb store_xy) = None
   \<and> table_ids (db (snd (insert_data typed_cells uuid_ab SelfDb store_xy)))
       = [VStr ''A'', VStr ''B'', VStr ''A'', VStr ''B'']
   \<and> \<not> distinct (table_ids (db (snd (insert_data typed_cells uuid_ab SelfDb store_xy))))"
proof -
  have t: "table_ids (db (snd (insert_record record_y store_xy)))
       = [VStr ''X'', VStr ''Y'', VStr ''Y'']"
    unfolding insert_record_y_xy by (simp add: table_ids_def cell_def data_defs)
  have s: "table_ids (db (snd (insert_data typed_cells uuid_ab SelfDb store_xy)))
       = [VStr ''A'', VStr ''B'', VStr ''A'', VStr ''B'']"
    unfolding insert_table_itself
    by (simp add: table_ids_def schema_frame_def mk_row_def cell_def)
  have f: "uuid_ab 0 \<noteq> uuid_ab 1" "VStr (uuid_ab 0) \<notin> set (table_ids (db store_xy))"
    "VStr (uuid_ab 1) \<notin> set (table_ids (db store_xy))"
    by (simp_all add: table_ids_def cell_def data_defs)
  have g: "get_data_by_col_val typed_cells [] store_xy = Inr SelfDb"
    by (simp add: get_data_by_col_val_def)
  from distinct_ids_examples(2) f g show ?thesis
    unfolding t s by (simp add: insert_record_y_xy insert_table_itself)
qed

text \<open>
  C5 as amended, on the table with the rows X and Y: two records are inserted, one of them
  is deleted, and a deletion of an unknown id raises.
\<close>

theorem fresh_ids_stay_unique_witness:
  "distinct (table_ids (db store_xy))
   \<and> fresh_run typed_cells ops_example store_xy
   \<and> distinct (table_ids (db (run typed_cells ops_example store_xy)))
   \<and> insert_data typed_cells uuid_ab (Frame frame_ab) store_xy =
        (None, store_xy\<lparr>db := table_ab,
                     disk := write_all table_ab [(2023, 3), (2022, 1)] (disk store_xy)\<rparr>)
   \<and> table_ids (db (store_xy\<lparr>db := table_ab,
                     disk := write_all table_ab [(2023, 3), (2022, 1)] (disk store_xy)\<rparr>)) =
        table_ids (db store_xy) @ map (\<lambda>i. VStr (uuid_ab i)) [0..<length (rows frame_ab)]"
proof -
  note t = fresh_ids_stay_unique [OF distinct_ids_examples(2) admissible_ops_example(2)]
  from t [THEN conjunct2, rule_format, OF insert_ab]
  have t2: "table_ids (db (store_xy\<lparr>db := table_ab,
                     disk := write_all table_ab [(2023, 3), (2022, 1)] (disk store_xy)\<rparr>)) =
        table_ids (db store_xy) @ map (\<lambda>i. VStr (uuid_ab i)) [0..<length (rows frame_ab)]"
    by simp
  show ?thesis
    by (intro conjI) (rule distinct_ids_examples(2), rule admissible_ops_example(2),
        rule t [THEN conjunct1], rule insert_ab, rule t2)
qed

section \<open>The date column of the table\<close>

text \<open>
  Saving a backfilled record needs a date column of dtype datetime64 in the table: on a
  table whose date column is of dtype object the record dated 2023-03-15 extends the
  table, whose date column stays of dtype object, and the saving fails with
  AttributeError although the folder of 2023 exists.
\<close>

lemma insert_data_backfilled_object_dates:
  "has_folder (store_object\<lparr>folders := [2023]\<rparr>) 2023
   \<and> fst (insert_data typed_cells uuid_ab
            (Frame (raw_frame [raw_row (VDate 2023 3 15) ''Store'' (85 / 2)]))
            (store_object\<lparr>folders := [2023]\<rparr>)) = Some AttributeError
   \<and> map_of (disk (snd (insert_data typed_cells uuid_ab
            (Frame (raw_frame [raw_row (VDate 2023 3 15) ''Store'' (85 / 2)]))
            (store_object\<lparr>folders := [2023]\<rparr>)))) (2023, 3) = None"
proof -
  define st where "st = store_object\<lparr>folders := [2023]\<rparr>"
  let ?f = "raw_frame [raw_row (VDate 2023 3 15) ''Store'' (85 / 2)]"
  let ?r = "cast_row (VDate 2023 3 15) ''Store'' (85 / 2) (uuid_ab 0)"
  let ?d = "appended (db st) (cast_result uuid_ab ?f [?r])"
  have cols: "set cast_columns \<subseteq> set (columns ?f)"
    by (simp add: cast_columns_def raw_frame_def get_mandatory_cols_def get_non_mandatory_cols_def)
  have r1: "rows (with_uuids uuid_ab ?f)
            = [raw_row (VDate 2023 3 15) ''Store'' (85 / 2) @ [(ID, VStr (uuid_ab 0))]]"
    by (simp add: with_uuids_def setitem_def raw_frame_def raw_row_def get_non_mandatory_cols_def)
  have rs: "list_all2 (\<lambda>r r'. coerce_row typed_cells r = Inr r') (rows (with_uuids uuid_ab ?f)) [?r]"
    by (simp add: r1 coerce_raw_row)
  note cf = cast_frame_result [OF cols rs]
  note cc = cast_result_columns [OF cols, of uuid_ab "[?r]"]
  have n: "map uuid_ab [0..<length (rows ?f)] = [uuid_ab 0]" by (simp add: raw_frame_def)
  have c1: "ID \<in> set (columns ?d)" "DATE \<in> set (columns ?d)"
    using cc by (simp_all add: columns_appended)
  have "DATE \<in> set (columns (db st))" "DATE \<notin> set (datetimes (db st))"
    by (simp_all add: st_def store_object_def get_db_col_vals_def)
  then have nd: "DATE \<notin> set (datetimes ?d)"
    by (auto simp: appended_def set_concat_datetimes)
  have "find (\<lambda>r. cell r ID = VStr ([uuid_ab 0] ! 0)) (rows ?d) = Some ([?r] ! 0)"
    by (rule find_appended [where df = "db st"])
       (simp_all add: rows_appended cast_result_def cast_row_def cell_def table_ids_def
          st_def store_object_def row_x_def mk_row_def uuid_ab_def)
  then have "find (\<lambda>r. cell r ID = VStr (uuid_ab 0)) (rows ?d) = Some ?r" by simp
  with c1 have g: "get_months_from_uuid [uuid_ab 0] (st\<lparr>db := ?d\<rparr>) = Inr [(Some 2023, Some 3)]"
    by (simp add: get_months_from_uuid_def lookup_date_eq year_month_def cast_row_def cell_def)
  have s: "save_db_from_uuid [uuid_ab 0] (st\<lparr>db := ?d\<rparr>) = (Some AttributeError, st\<lparr>db := ?d\<rparr>)"
    using c1 nd by (simp add: save_db_from_uuid_def g save_db_plan write_all_def)
  have i: "insert_data typed_cells uuid_ab (Frame ?f) st = (Some AttributeError, st\<lparr>db := ?d\<rparr>)"
    unfolding insert_data_Frame [OF cf] n by (rule s)
  have "has_folder st 2023
   \<and> fst (insert_data typed_cells uuid_ab (Frame ?f) st) = Some AttributeError
   \<and> map_of (disk (snd (insert_data typed_cells uuid_ab (Frame ?f) st))) (2023, 3) = None"
    unfolding i by (simp add: has_folder_def st_def store_object_def)
  then show ?thesis unfolding st_def .
qed

end
